theory Spec2Isabelle
  imports Complex_Main "HOL-Library.Word"
begin

section \<open>Filament engine: command pipeline and resource lifecycle (Engine.cpp)\<close>

text \<open>
  A shallow embedding of \<^verbatim>\<open>filament/src/Engine.cpp\<close>. Pointers are natural numbers,
  the null pointer is 0. Everything the C++ does beyond returning a value (mutation of
  the engine's members, log output, calls into collaborators that are not part of the
  file) is explicit: the engine is a record that is passed and returned, and calls into
  collaborators are recorded in an event trace in program order.
\<close>

subsection \<open>Pointers and sizes\<close>

type_synonym ptr = nat

definition nullptr :: ptr where
  "nullptr = 0"

type_synonym size_t = "64 word"

subsection \<open>streamAlloc\<close>

text \<open>
  \<^verbatim>\<open>void* FEngine::streamAlloc(size_t size, size_t alignment)\<close>. The driver API's
  \<^verbatim>\<open>allocate\<close> is a collaborator: it is a parameter, and every call made to it is
  appended to a call log.
\<close>

record driver_api =
  allocate :: "size_t \<Rightarrow> size_t \<Rightarrow> ptr"
  allocate_calls :: "(size_t \<times> size_t) list"

definition driver_allocate :: "size_t \<Rightarrow> size_t \<Rightarrow> driver_api \<Rightarrow> ptr \<times> driver_api" where
  "driver_allocate sz alignment d =
     (allocate d sz alignment, d\<lparr>allocate_calls := allocate_calls d @ [(sz, alignment)]\<rparr>)"

definition streamAlloc :: "size_t \<Rightarrow> size_t \<Rightarrow> driver_api \<Rightarrow> ptr \<times> driver_api" where
  "streamAlloc sz alignment d =
     (if sz > 1024 then (nullptr, d)
      else driver_allocate sz alignment d)"

subsection \<open>Component managers and createRenderable\<close>

type_synonym entity = nat

type_synonym mat4f = "real list list"

text \<open>
  Modelled from the spec: the math library is not part of the file. \<^verbatim>\<open>mat4f()\<close>, the
  default-constructed matrix, is the identity transform.
\<close>

definition mat4f_default :: mat4f where
  "mat4f_default = [[1, 0, 0, 0], [0, 1, 0, 0], [0, 0, 1, 0], [0, 0, 0, 1]]"

record transform_component =
  tc_parent :: nat
  tc_local :: mat4f

type_synonym renderable_builder = nat

record component_managers =
  mRenderableManager :: "entity \<rightharpoonup> renderable_builder"
  mTransformManager :: "entity \<rightharpoonup> transform_component"

text \<open>
  Modelled from the spec: the component managers are collaborators, specified at their
  boundary (\<^verbatim>\<open>create\<close>, \<^verbatim>\<open>hasComponent\<close>). \<^verbatim>\<open>create\<close> attaches a component
  to the entity; parent instance 0 is "no parent".
\<close>

definition rcm_create :: "renderable_builder \<Rightarrow> entity \<Rightarrow> component_managers \<Rightarrow> component_managers" where
  "rcm_create builder e m = m\<lparr>mRenderableManager := (mRenderableManager m)(e \<mapsto> builder)\<rparr>"

definition tcm_hasComponent :: "entity \<Rightarrow> component_managers \<Rightarrow> bool" where
  "tcm_hasComponent e m = (mTransformManager m e \<noteq> None)"

definition tcm_create :: "entity \<Rightarrow> nat \<Rightarrow> mat4f \<Rightarrow> component_managers \<Rightarrow> component_managers" where
  "tcm_create e parent localTransform m =
     m\<lparr>mTransformManager := (mTransformManager m)(e \<mapsto> \<lparr>tc_parent = parent, tc_local = localTransform\<rparr>)\<rparr>"

definition createRenderable :: "renderable_builder \<Rightarrow> entity \<Rightarrow> component_managers \<Rightarrow> component_managers" where
  "createRenderable builder e m =
     (let m1 = rcm_create builder e m
      in if \<not> tcm_hasComponent e m1 then tcm_create e 0 mat4f_default m1 else m1)"

subsection \<open>Build configuration\<close>

text \<open>
  The two preprocessor symbols the file branches on: \<^verbatim>\<open>UTILS_HAS_THREADING\<close> and
  \<^verbatim>\<open>NDEBUG\<close> (defined in release builds; the \<^verbatim>\<open>#ifndef NDEBUG\<close> blocks are compiled
  only when it is False here).
\<close>

record config =
  UTILS_HAS_THREADING :: bool
  NDEBUG :: bool

subsection \<open>Resource kinds, driver commands and the event trace\<close>

datatype resource_type =
    FRenderer | FView | FScene | FSkybox | FIndexBuffer | FVertexBuffer | FTexture
  | FRenderTarget | FMaterial | FMaterialInstance | FFence | FIndirectLight | FSwapChain
  | FStream

datatype subsystem =
    PostProcessManager | ResourceAllocator | DFG | RenderableManager | LightManager
  | CameraManager

text \<open>
  What is written into the circular buffer. The calls that record commands are calls into
  collaborators (\<^verbatim>\<open>terminate\<close> of a resource or of a subsystem): the block of commands
  such a call records, whatever it holds, is one symbolic entry.
\<close>

datatype command =
    DestroyRenderPrimitive ptr
  | TerminateCommands resource_type ptr
  | SubsystemCommands subsystem

record slice =
  slice_begin :: ptr
  slice_commands :: "command list"

datatype event =
    ListRemove resource_type ptr
  | Terminate resource_type ptr
  | HeapDestroy resource_type ptr
  | LogObjectDoesntExist resource_type ptr
  | LogLeaked resource_type nat
  | LogWatermark
  | PanicLogPrecondition ptr nat
  | SubsystemTerminate subsystem
  | DriverApiCall command
  | DriverPurge
  | QueueFlush slice
  | WaitForCommandsReturned "slice list"
  | CommandStreamExecute slice
  | ReleaseBuffer slice
  | RequestExit
  | DriverThreadJoin
  | DriverTerminate
  | JobSystemEmancipate
  | MarkTerminated
  | DriverThreadStart
  | BarrierLatch
  | BarrierAwait
  | InitCalled

subsection \<open>Resource lists\<close>

text \<open>
  Modelled from the spec: the class \<^verbatim>\<open>ResourceList\<close> is declared outside the file. It is
  "an ownership set recording every live instance of one resource kind; supports insert,
  remove-by-identity, emptiness/size query, and an atomic take all and clear". The set is
  a list here (the order is the order of iteration); \<^verbatim>\<open>insert\<close> does not add an
  element twice and \<^verbatim>\<open>remove\<close> "removes by identity, returns whether it was present".
\<close>

type_synonym resource_list = "ptr list"

definition rl_insert :: "ptr \<Rightarrow> resource_list \<Rightarrow> resource_list" where
  "rl_insert p l = (if p \<in> set l then l else l @ [p])"

definition rl_remove :: "ptr \<Rightarrow> resource_list \<Rightarrow> bool \<times> resource_list" where
  "rl_remove p l = (p \<in> set l, removeAll p l)"

definition rl_empty :: "resource_list \<Rightarrow> bool" where
  "rl_empty l = (l = [])"

definition rl_size :: "resource_list \<Rightarrow> nat" where
  "rl_size l = length l"

definition getListAndClear :: "resource_list \<Rightarrow> resource_list \<times> resource_list" where
  "getListAndClear l = (l, [])"

subsection \<open>The command buffer queue\<close>

text \<open>
  Modelled from the spec: the class \<^verbatim>\<open>CommandBufferQueue\<close> is declared outside the file.
  \<^verbatim>\<open>flush()\<close> "makes all bytes written by the producer up to now visible to the consumer
  and publishes a new buffer descriptor"; \<^verbatim>\<open>waitForCommands()\<close> "suspends the calling
  thread until at least one buffer descriptor is available or an exit has been requested;
  returns the available descriptors (possibly empty, which signals exit now)";
  \<^verbatim>\<open>requestExit()\<close> "signals the consumer to stop waiting". A suspended call is the
  value None. Without threading "both roles run inline on the single thread": nobody could
  publish a buffer while the caller waits (and \<^verbatim>\<open>create\<close> calls \<^verbatim>\<open>execute()\<close>
  right after \<^verbatim>\<open>init()\<close>, with nothing flushed), so the call returns what is there.
  The descriptor published by \<^verbatim>\<open>flush\<close> begins at the tail of the circular buffer,
  which then advances over the commands published.
\<close>

record command_buffer_queue =
  circularBuffer :: "command list"
  circularTail :: ptr
  mCommandBuffersToExecute :: "slice list"
  mExitRequested :: bool

definition cbq_flush :: "command_buffer_queue \<Rightarrow> slice \<times> command_buffer_queue" where
  "cbq_flush q =
     (let item = \<lparr>slice_begin = circularTail q, slice_commands = circularBuffer q\<rparr>
      in (item, q\<lparr>circularBuffer := [],
                  circularTail := circularTail q + length (circularBuffer q),
                  mCommandBuffersToExecute := mCommandBuffersToExecute q @ [item]\<rparr>))"

definition waitForCommands ::
  "config \<Rightarrow> command_buffer_queue \<Rightarrow> (slice list \<times> command_buffer_queue) option" where
  "waitForCommands cfg q =
     (if UTILS_HAS_THREADING cfg \<and> mCommandBuffersToExecute q = [] \<and> \<not> mExitRequested q then None
      else Some (mCommandBuffersToExecute q, q\<lparr>mCommandBuffersToExecute := []\<rparr>))"

definition cbq_requestExit :: "command_buffer_queue \<Rightarrow> command_buffer_queue" where
  "cbq_requestExit q = q\<lparr>mExitRequested := True\<rparr>"

subsection \<open>The engine\<close>

text \<open>
  The members of \<^verbatim>\<open>FEngine\<close> that the functions below read or write. The resource lists
  \<^verbatim>\<open>mRenderers\<close>, \<^verbatim>\<open>mViews\<close>, ... (one per resource type) are the field
  \<open>resourceLists\<close>, indexed by the type; \<^verbatim>\<open>mMaterialInstances\<close>, an unordered map from
  a material to the list of its instances, is an association list. \<open>materialOf\<close> is
  \<^verbatim>\<open>FMaterialInstance::getMaterial()\<close> of the object at an address. \<open>driverThreadReturned\<close>
  says whether the driver thread has left \<^verbatim>\<open>FEngine::loop\<close>; \<open>events\<close> is the trace.
\<close>

record fengine =
  mPlatform :: ptr
  mOwnPlatform :: bool
  mDriver :: ptr
  resourceLists :: "resource_type \<Rightarrow> resource_list"
  mMaterialInstances :: "(ptr \<times> resource_list) list"
  materialOf :: "ptr \<Rightarrow> ptr"
  mSkyboxMaterial :: ptr
  mFullScreenTriangleRph :: ptr
  mFullScreenTriangleIb :: ptr
  mFullScreenTriangleVb :: ptr
  mDefaultIblTexture :: ptr
  mDefaultIbl :: ptr
  mDefaultMaterial :: ptr
  mCommandBufferQueue :: command_buffer_queue
  driverThreadReturned :: bool
  mTerminated :: bool
  events :: "event list"

definition log_event :: "event \<Rightarrow> fengine \<Rightarrow> fengine" where
  "log_event ev e = e\<lparr>events := events e @ [ev]\<rparr>"

definition record_command :: "command \<Rightarrow> fengine \<Rightarrow> fengine" where
  "record_command c e =
     e\<lparr>mCommandBufferQueue := (mCommandBufferQueue e)
         \<lparr>circularBuffer := circularBuffer (mCommandBufferQueue e) @ [c]\<rparr>\<rparr>"

text \<open>
  A reference to a resource list (the parameter \<^verbatim>\<open>ResourceList<T, L>& list\<close>): one of the
  members, or the list of instances of a material inside \<^verbatim>\<open>mMaterialInstances\<close>
  (\<^verbatim>\<open>pos->second\<close>, \<^verbatim>\<open>item.second\<close>).
\<close>

datatype list_ref = MemberList resource_type | InstanceList ptr

fun element_type :: "list_ref \<Rightarrow> resource_type" where
  "element_type (MemberList T) = T"
| "element_type (InstanceList m) = FMaterialInstance"

fun get_list :: "list_ref \<Rightarrow> fengine \<Rightarrow> resource_list" where
  "get_list (MemberList T) e = resourceLists e T"
| "get_list (InstanceList m) e =
     (case map_of (mMaterialInstances e) m of Some l \<Rightarrow> l | None \<Rightarrow> [])"

fun set_list :: "list_ref \<Rightarrow> resource_list \<Rightarrow> fengine \<Rightarrow> fengine" where
  "set_list (MemberList T) l e = e\<lparr>resourceLists := (resourceLists e)(T := l)\<rparr>"
| "set_list (InstanceList m) l e =
     e\<lparr>mMaterialInstances :=
         map (\<lambda>(k, v). if k = m then (k, l) else (k, v)) (mMaterialInstances e)\<rparr>"

text \<open>
  Modelled from the spec: \<^verbatim>\<open>T::terminate(FEngine&)\<close> of a resource is declared outside
  the file. The resource is "given a chance to release driver-side resources": the call is
  an event, and the commands it records go into the circular buffer.
  \<^verbatim>\<open>mHeapAllocator.destroy\<close> frees the object.
\<close>

definition item_terminate :: "resource_type \<Rightarrow> ptr \<Rightarrow> fengine \<Rightarrow> fengine" where
  "item_terminate T p e = record_command (TerminateCommands T p) (log_event (Terminate T p) e)"

definition heap_destroy :: "resource_type \<Rightarrow> ptr \<Rightarrow> fengine \<Rightarrow> fengine" where
  "heap_destroy T p e = log_event (HeapDestroy T p) e"

definition subsystem_terminate :: "subsystem \<Rightarrow> fengine \<Rightarrow> fengine" where
  "subsystem_terminate s e = record_command (SubsystemCommands s) (log_event (SubsystemTerminate s) e)"

definition driverApi_destroyRenderPrimitive :: "ptr \<Rightarrow> fengine \<Rightarrow> fengine" where
  "driverApi_destroyRenderPrimitive h e =
     record_command (DestroyRenderPrimitive h) (log_event (DriverApiCall (DestroyRenderPrimitive h)) e)"

subsection \<open>Creating resources\<close>

text \<open>
  \<^verbatim>\<open>mHeapAllocator.make\<close> is a collaborator: the address it returns is the parameter \<open>p\<close>.
  \<open>create_resource\<close> is the template \<^verbatim>\<open>FEngine::create(ResourceList<T>&, Builder)\<close>.
\<close>

definition create_resource :: "resource_type \<Rightarrow> ptr \<Rightarrow> fengine \<Rightarrow> ptr \<times> fengine" where
  "create_resource T p e = (p, set_list (MemberList T) (rl_insert p (get_list (MemberList T) e)) e)"

text \<open>
  \<^verbatim>\<open>createScene\<close>, \<^verbatim>\<open>createView\<close>, \<^verbatim>\<open>createFence\<close> and
  \<^verbatim>\<open>createSwapChain\<close>: the object is registered only if the allocation succeeded.
\<close>

definition create_object :: "resource_type \<Rightarrow> ptr \<Rightarrow> fengine \<Rightarrow> ptr \<times> fengine" where
  "create_object T p e =
     (if p \<noteq> nullptr
      then (p, set_list (MemberList T) (rl_insert p (get_list (MemberList T) e)) e)
      else (p, e))"

definition createMaterialInstance :: "ptr \<Rightarrow> ptr \<Rightarrow> fengine \<Rightarrow> ptr \<times> fengine" where
  "createMaterialInstance material p e =
     (if p \<noteq> nullptr then
        (let e1 = e\<lparr>materialOf := (materialOf e)(p := material)\<rparr>;
             e2 = (if map_of (mMaterialInstances e1) material = None
                   then e1\<lparr>mMaterialInstances := mMaterialInstances e1 @ [(material, [])]\<rparr>
                   else e1)
         in (p, set_list (InstanceList material)
                  (rl_insert p (get_list (InstanceList material) e2)) e2))
      else (p, e))"

subsection \<open>cleanupResourceList and terminateAndDestroy\<close>

definition cleanupResourceList :: "config \<Rightarrow> list_ref \<Rightarrow> fengine \<Rightarrow> fengine" where
  "cleanupResourceList cfg list e =
     (if \<not> rl_empty (get_list list e) then
        (let e1 = (if NDEBUG cfg then e
                   else log_event (LogLeaked (element_type list) (rl_size (get_list list e))) e);
             (copy, cleared) = getListAndClear (get_list list e1);
             e2 = set_list list cleared e1
         in foldl (\<lambda>s item. heap_destroy (element_type list) item
                               (item_terminate (element_type list) item s)) e2 copy)
      else e)"

definition terminateAndDestroy :: "config \<Rightarrow> ptr \<Rightarrow> list_ref \<Rightarrow> fengine \<Rightarrow> fengine" where
  "terminateAndDestroy cfg p list e =
     (if p \<noteq> nullptr then
        (case rl_remove p (get_list list e) of
           (True, l') \<Rightarrow>
             heap_destroy (element_type list) p
               (item_terminate (element_type list) p
                 (log_event (ListRemove (element_type list) p) (set_list list l' e)))
         | (False, l') \<Rightarrow>
             (if NDEBUG cfg then e
              else log_event (LogObjectDoesntExist (element_type list) p) e))
      else e)"

subsection \<open>destroy\<close>

text \<open>
  The overloads of \<^verbatim>\<open>FEngine::destroy\<close> for the types that go straight to
  \<^verbatim>\<open>terminateAndDestroy\<close> with the list of their type.
\<close>

definition destroy :: "config \<Rightarrow> resource_type \<Rightarrow> ptr \<Rightarrow> fengine \<Rightarrow> fengine" where
  "destroy cfg T p e = terminateAndDestroy cfg p (MemberList T) e"

text \<open>
  Modelled from the spec: the macro \<^verbatim>\<open>ASSERT_PRECONDITION_NON_FATAL\<close> is defined outside
  the file. A violated precondition is "reported non-fatally, operation refused": the
  macro logs and yields False; it yields True when the condition holds.
\<close>

definition ASSERT_PRECONDITION_NON_FATAL :: "bool \<Rightarrow> event \<Rightarrow> fengine \<Rightarrow> bool \<times> fengine" where
  "ASSERT_PRECONDITION_NON_FATAL cond msg e = (if cond then (True, e) else (False, log_event msg e))"

definition destroy_material :: "config \<Rightarrow> ptr \<Rightarrow> fengine \<Rightarrow> fengine" where
  "destroy_material cfg p e =
     (if p \<noteq> nullptr then
        (case map_of (mMaterialInstances e) p of
           Some instances \<Rightarrow>
             (case ASSERT_PRECONDITION_NON_FATAL (rl_empty instances)
                     (PanicLogPrecondition p (rl_size instances)) e of
                (ok, e1) \<Rightarrow>
                  if \<not> ok then e1
                  else terminateAndDestroy cfg p (MemberList FMaterial) e1)
         | None \<Rightarrow> terminateAndDestroy cfg p (MemberList FMaterial) e)
      else e)"

datatype error = AssertionFailed | PostconditionPanic | NullDriverDereference

definition destroy_material_instance :: "config \<Rightarrow> ptr \<Rightarrow> fengine \<Rightarrow> error + fengine" where
  "destroy_material_instance cfg p e =
     (if p \<noteq> nullptr then
        (case map_of (mMaterialInstances e) (materialOf e p) of
           None \<Rightarrow> if NDEBUG cfg then Inr e else Inl AssertionFailed
         | Some instances \<Rightarrow> Inr (terminateAndDestroy cfg p (InstanceList (materialOf e p)) e))
      else Inr e)"

subsection \<open>An engine for the concrete instances\<close>

text \<open>
  The shape \<^verbatim>\<open>init()\<close> leaves behind: the full-screen triangle's buffers, the default
  environment light with its texture and the default material are registered in the lists
  of their types; the skybox material does not exist yet; nothing has been recorded.
\<close>

definition example_engine :: fengine where
  "example_engine =
     \<lparr>mPlatform = 2,
      mOwnPlatform = True,
      mDriver = 1,
      resourceLists = (\<lambda>T. [])(FVertexBuffer := [10], FIndexBuffer := [11], FTexture := [12],
                                 FIndirectLight := [13], FMaterial := [14]),
      mMaterialInstances = [],
      materialOf = (\<lambda>p. nullptr),
      mSkyboxMaterial = nullptr,
      mFullScreenTriangleRph = 9,
      mFullScreenTriangleIb = 11,
      mFullScreenTriangleVb = 10,
      mDefaultIblTexture = 12,
      mDefaultIbl = 13,
      mDefaultMaterial = 14,
      mCommandBufferQueue =
        \<lparr>circularBuffer = [], circularTail = 4096, mCommandBuffersToExecute = [],
         mExitRequested = False\<rparr>,
      driverThreadReturned = False,
      mTerminated = False,
      events = []\<rparr>"

text \<open>The same engine after the client has created one instance, at 20, of the material at 14.\<close>

definition example_engine_with_instance :: fengine where
  "example_engine_with_instance = snd (createMaterialInstance 14 20 example_engine)"

subsection \<open>Flushing, executing, the driver thread\<close>

definition flushCommandBuffer :: "fengine \<Rightarrow> fengine" where
  "flushCommandBuffer e =
     (let e1 = log_event DriverPurge e;
          (item, q') = cbq_flush (mCommandBufferQueue e1)
      in log_event (QueueFlush item) (e1\<lparr>mCommandBufferQueue := q'\<rparr>))"

definition requestExit :: "fengine \<Rightarrow> fengine" where
  "requestExit e =
     log_event RequestExit (e\<lparr>mCommandBufferQueue := cbq_requestExit (mCommandBufferQueue e)\<rparr>)"

text \<open>
  \<^verbatim>\<open>mCommandStream.execute(item.begin)\<close> and \<^verbatim>\<open>mCommandBufferQueue.releaseBuffer(item)\<close>
  are calls into collaborators: events.
\<close>

definition commandStream_execute :: "slice \<Rightarrow> fengine \<Rightarrow> fengine" where
  "commandStream_execute item e = log_event (CommandStreamExecute item) e"

definition releaseBuffer :: "slice \<Rightarrow> fengine \<Rightarrow> fengine" where
  "releaseBuffer item e = log_event (ReleaseBuffer item) e"

definition execute_item :: "fengine \<Rightarrow> slice \<Rightarrow> fengine" where
  "execute_item e item =
     (if slice_begin item \<noteq> nullptr
      then releaseBuffer item (commandStream_execute item e)
      else e)"

text \<open>
  \<^verbatim>\<open>bool FEngine::execute()\<close>. None: the call is suspended inside
  \<^verbatim>\<open>waitForCommands\<close> (no buffer, no exit requested).
\<close>

definition execute :: "config \<Rightarrow> fengine \<Rightarrow> (bool \<times> fengine) option" where
  "execute cfg e =
     (case waitForCommands cfg (mCommandBufferQueue e) of
        None \<Rightarrow> None
      | Some (buffers, q') \<Rightarrow>
          (let e1 = log_event (WaitForCommandsReturned buffers) (e\<lparr>mCommandBufferQueue := q'\<rparr>)
           in if buffers = [] then Some (False, e1)
              else Some (True, foldl execute_item e1 buffers)))"

text \<open>
  The \<^verbatim>\<open>while (true)\<close> of \<^verbatim>\<open>FEngine::loop\<close>, run with no other thread stepping in
  between: it leaves when \<^verbatim>\<open>execute()\<close> returns false, and it is None when
  \<^verbatim>\<open>execute()\<close> is suspended for ever.
\<close>

function driver_loop :: "config \<Rightarrow> fengine \<Rightarrow> fengine option" where
  "driver_loop cfg e =
     (case execute cfg e of
        None \<Rightarrow> None
      | Some (continue, e') \<Rightarrow> if continue then driver_loop cfg e' else Some e')"
  by pat_completeness auto

termination driver_loop
proof (relation "measure (\<lambda>(cfg, e). length (mCommandBuffersToExecute (mCommandBufferQueue e)))")
  show "wf (measure (\<lambda>(cfg, e). length (mCommandBuffersToExecute (mCommandBufferQueue e))))"
    by simp
next
  fix cfg e x2 x y
  assume a: "execute cfg e = Some x2" "(x, y) = x2" "x"
  have fold_q: "mCommandBufferQueue (foldl execute_item s bs) = mCommandBufferQueue s" for s bs
    by (induction bs arbitrary: s)
       (simp_all add: execute_item_def releaseBuffer_def commandStream_execute_def log_event_def)
  from a have ex: "execute cfg e = Some (True, y)" by auto
  then have "mCommandBuffersToExecute (mCommandBufferQueue e) \<noteq> []"
    by (auto simp: execute_def waitForCommands_def Let_def split: if_splits)
  moreover from ex have "mCommandBuffersToExecute (mCommandBufferQueue y) = []"
    by (auto simp: execute_def waitForCommands_def Let_def fold_q log_event_def split: if_splits)
  ultimately
  show "((cfg, y), (cfg, e)) \<in>
          measure (\<lambda>(cfg, e). length (mCommandBuffersToExecute (mCommandBufferQueue e)))"
    by simp
qed

declare driver_loop.simps [simp del]

definition driver_terminate :: "fengine \<Rightarrow> fengine" where
  "driver_terminate e = (log_event DriverTerminate e)\<lparr>driverThreadReturned := True\<rparr>"

definition loop_run :: "config \<Rightarrow> fengine \<Rightarrow> fengine option" where
  "loop_run cfg e = map_option driver_terminate (driver_loop cfg e)"

text \<open>
  \<^verbatim>\<open>int FEngine::loop()\<close>. The platform is a collaborator: what
  \<^verbatim>\<open>DefaultPlatform::create\<close> returns and what \<^verbatim>\<open>createDriver\<close> of a platform
  returns (null when the driver cannot be created) are parameters. \<open>loop_startup\<close> is
  the function up to \<^verbatim>\<open>mDriverBarrier.latch()\<close>. The material debugger's server
  (compiled only with \<^verbatim>\<open>FILAMENT_ENABLE_MATDBG\<close>) and the name, priority and affinity of
  the thread touch nothing of the engine and are left out.
\<close>

record platform_env =
  defaultPlatform :: ptr
  createDriver :: "ptr \<Rightarrow> ptr"

definition loop_startup :: "platform_env \<Rightarrow> fengine \<Rightarrow> fengine" where
  "loop_startup env e =
     (let platform = mPlatform e;
          e1 = e\<lparr>mPlatform := nullptr\<rparr>;
          e2 = (if platform = nullptr
                then e1\<lparr>mPlatform := defaultPlatform env, mOwnPlatform := True\<rparr>
                else e1);
          platform' = (if platform = nullptr then defaultPlatform env else platform);
          e3 = e2\<lparr>mDriver := createDriver env platform'\<rparr>
      in log_event BarrierLatch e3)"

definition loop :: "config \<Rightarrow> platform_env \<Rightarrow> fengine \<Rightarrow> fengine option" where
  "loop cfg env e =
     (let e1 = loop_startup env e
      in if mDriver e1 = nullptr then Some (e1\<lparr>driverThreadReturned := True\<rparr>)
         else loop_run cfg e1)"

text \<open>
  \<^verbatim>\<open>mDriverThread.join()\<close>: the caller waits until the driver thread has left
  \<^verbatim>\<open>loop()\<close>; the thread runs the rest of its loop meanwhile.
\<close>

definition driverThread_join :: "config \<Rightarrow> fengine \<Rightarrow> fengine option" where
  "driverThread_join cfg e =
     map_option (log_event DriverThreadJoin)
       (if driverThreadReturned e then Some e else loop_run cfg e)"





subsection \<open>shutdown\<close>

text \<open>
  \<^verbatim>\<open>void FEngine::shutdown()\<close>, in the three parts its comments name: "Destroy our own
  state first", "clean-up after the user", "terminate the rendering engine".
\<close>

definition shutdown_own_state :: "config \<Rightarrow> fengine \<Rightarrow> fengine" where
  "shutdown_own_state cfg e0 =
     (let e1 = subsystem_terminate PostProcessManager e0;
          e2 = subsystem_terminate ResourceAllocator e1;
          e3 = subsystem_terminate DFG e2;
          e4 = subsystem_terminate RenderableManager e3;
          e5 = subsystem_terminate LightManager e4;
          e6 = subsystem_terminate CameraManager e5;
          e7 = driverApi_destroyRenderPrimitive (mFullScreenTriangleRph e6) e6;
          e8 = destroy cfg FIndexBuffer (mFullScreenTriangleIb e7) e7;
          e9 = destroy cfg FVertexBuffer (mFullScreenTriangleVb e8) e8;
          e10 = destroy cfg FTexture (mDefaultIblTexture e9) e9;
          e11 = destroy cfg FIndirectLight (mDefaultIbl e10) e10
      in destroy_material cfg (mDefaultMaterial e11) e11)"

definition cleanup_instances :: "config \<Rightarrow> fengine \<Rightarrow> fengine" where
  "cleanup_instances cfg e =
     foldl (\<lambda>s item. cleanupResourceList cfg (InstanceList (fst item)) s) e (mMaterialInstances e)"

definition shutdown_cleanup :: "config \<Rightarrow> fengine \<Rightarrow> fengine" where
  "shutdown_cleanup cfg e0 =
     (let e1 = cleanupResourceList cfg (MemberList FRenderer) e0;
          e2 = cleanupResourceList cfg (MemberList FView) e1;
          e3 = cleanupResourceList cfg (MemberList FScene) e2;
          e4 = cleanupResourceList cfg (MemberList FSkybox) e3;
          e5 = destroy_material cfg (mSkyboxMaterial e4) e4;
          e6 = cleanupResourceList cfg (MemberList FIndexBuffer) e5;
          e7 = cleanupResourceList cfg (MemberList FVertexBuffer) e6;
          e8 = cleanupResourceList cfg (MemberList FTexture) e7;
          e9 = cleanupResourceList cfg (MemberList FRenderTarget) e8;
          e10 = cleanupResourceList cfg (MemberList FMaterial) e9;
          e11 = cleanup_instances cfg e10
      in cleanupResourceList cfg (MemberList FFence) e11)"

definition shutdown_exit :: "config \<Rightarrow> fengine \<Rightarrow> fengine option" where
  "shutdown_exit cfg e0 =
     (let e1 = flushCommandBuffer e0
      in case (if \<not> UTILS_HAS_THREADING cfg then map_option snd (execute cfg e1) else Some e1) of
           None \<Rightarrow> None
         | Some e2 \<Rightarrow>
             (let e3 = requestExit e2
              in case (if UTILS_HAS_THREADING cfg then driverThread_join cfg e3 else Some e3) of
                   None \<Rightarrow> None
                 | Some e4 \<Rightarrow>
                     (let e5 = log_event JobSystemEmancipate e4
                      in Some (log_event MarkTerminated (e5\<lparr>mTerminated := True\<rparr>)))))"

definition shutdown :: "config \<Rightarrow> fengine \<Rightarrow> fengine option" where
  "shutdown cfg e =
     (let e1 = (if NDEBUG cfg then e else log_event LogWatermark e)
      in shutdown_exit cfg (shutdown_cleanup cfg (shutdown_own_state cfg e1)))"

text \<open>The same engine after the client has created a swap chain, at 30, and never destroyed it.\<close>

definition example_engine_with_swapchain :: fengine where
  "example_engine_with_swapchain = snd (create_object FSwapChain 30 example_engine)"

subsection \<open>Reading the trace\<close>

text \<open>
  The events that the terminations and clean-ups of \<^verbatim>\<open>shutdown\<close> leave (with their log
  lines), and the commands each of them records into the circular buffer.
\<close>

fun is_cleanup_event :: "event \<Rightarrow> bool" where
  "is_cleanup_event (ListRemove T p) = True"
| "is_cleanup_event (Terminate T p) = True"
| "is_cleanup_event (HeapDestroy T p) = True"
| "is_cleanup_event (LogObjectDoesntExist T p) = True"
| "is_cleanup_event (LogLeaked T n) = True"
| "is_cleanup_event LogWatermark = True"
| "is_cleanup_event (PanicLogPrecondition p n) = True"
| "is_cleanup_event (SubsystemTerminate s) = True"
| "is_cleanup_event (DriverApiCall c) = True"
| "is_cleanup_event ev = False"

fun recorded_by :: "event \<Rightarrow> command list" where
  "recorded_by (Terminate T p) = [TerminateCommands T p]"
| "recorded_by (SubsystemTerminate s) = [SubsystemCommands s]"
| "recorded_by (DriverApiCall c) = [c]"
| "recorded_by ev = []"

definition cleanup_effect :: "event list \<Rightarrow> fengine \<Rightarrow> fengine \<Rightarrow> bool" where
  "cleanup_effect evs e e' \<longleftrightarrow>
     list_all is_cleanup_event evs \<and>
     events e' = events e @ evs \<and>
     mCommandBufferQueue e' =
       (mCommandBufferQueue e)\<lparr>circularBuffer :=
          circularBuffer (mCommandBufferQueue e) @ concat (map recorded_by evs)\<rparr> \<and>
     driverThreadReturned e' = driverThreadReturned e"

text \<open>What the driver thread leaves in the trace when it goes through a list of buffers.\<close>

fun item_trace :: "slice \<Rightarrow> event list" where
  "item_trace item =
     (if slice_begin item \<noteq> nullptr then [CommandStreamExecute item, ReleaseBuffer item] else [])"

definition buffers_trace :: "slice list \<Rightarrow> event list" where
  "buffers_trace buffers = concat (map item_trace buffers)"

text \<open>
  The buffers published by \<^verbatim>\<open>flush\<close>, executed and released, in the order of the trace;
  the events that the driver thread leaves; and what one turn of its loop leaves when
  \<^verbatim>\<open>waitForCommands\<close> returned the buffers \<open>batch\<close>.
\<close>

fun flushed_of :: "event \<Rightarrow> slice list" where
  "flushed_of (QueueFlush item) = [item]"
| "flushed_of ev = []"

fun executed_of :: "event \<Rightarrow> slice list" where
  "executed_of (CommandStreamExecute item) = [item]"
| "executed_of ev = []"

fun released_of :: "event \<Rightarrow> slice list" where
  "released_of (ReleaseBuffer item) = [item]"
| "released_of ev = []"

definition flushed_buffers :: "event list \<Rightarrow> slice list" where
  "flushed_buffers evs = concat (map flushed_of evs)"

definition executed_buffers :: "event list \<Rightarrow> slice list" where
  "executed_buffers evs = concat (map executed_of evs)"

definition released_buffers :: "event list \<Rightarrow> slice list" where
  "released_buffers evs = concat (map released_of evs)"

fun is_driver_event :: "event \<Rightarrow> bool" where
  "is_driver_event (WaitForCommandsReturned buffers) = True"
| "is_driver_event (CommandStreamExecute item) = True"
| "is_driver_event (ReleaseBuffer item) = True"
| "is_driver_event DriverTerminate = True"
| "is_driver_event ev = False"

definition driver_events :: "event list \<Rightarrow> event list" where
  "driver_events evs = filter is_driver_event evs"



text \<open>
  The list of a resource type is as it was, and nothing of that type has been terminated or
  freed between two states of the engine.
\<close>

definition untouched :: "resource_type \<Rightarrow> fengine \<Rightarrow> fengine \<Rightarrow> bool" where
  "untouched T e e' \<longleftrightarrow>
     resourceLists e' T = resourceLists e T \<and>
     (\<exists>evs. events e' = events e @ evs \<and>
            (\<forall>p. Terminate T p \<notin> set evs \<and> HeapDestroy T p \<notin> set evs))"

subsection \<open>The registry of engines: create and assertValid\<close>

text \<open>
  \<^verbatim>\<open>sEngines\<close>, an unordered map from the handle of an engine to the owning pointer to the
  same object, is the list of its keys; \<^verbatim>\<open>sEnginesLock\<close> is held or not. What is done
  to the two is recorded in order.
\<close>

datatype registry_event = RegistryLock | RegistryUnlock | RegistryFind ptr | RegistryInsert ptr

record registry =
  sEngines :: "ptr list"
  sEnginesLock :: bool
  registryEvents :: "registry_event list"

definition lock_guard :: "registry \<Rightarrow> registry" where
  "lock_guard r = r\<lparr>sEnginesLock := True, registryEvents := registryEvents r @ [RegistryLock]\<rparr>"

definition lock_guard_release :: "registry \<Rightarrow> registry" where
  "lock_guard_release r =
     r\<lparr>sEnginesLock := False, registryEvents := registryEvents r @ [RegistryUnlock]\<rparr>"

definition sEngines_find :: "ptr \<Rightarrow> registry \<Rightarrow> bool \<times> registry" where
  "sEngines_find h r =
     (h \<in> set (sEngines r), r\<lparr>registryEvents := registryEvents r @ [RegistryFind h]\<rparr>)"

definition sEngines_insert :: "ptr \<Rightarrow> registry \<Rightarrow> registry" where
  "sEngines_insert h r =
     r\<lparr>sEngines := (if h \<in> set (sEngines r) then sEngines r else sEngines r @ [h]),
       registryEvents := registryEvents r @ [RegistryInsert h]\<rparr>"

text \<open>
  Modelled from the spec: the macro \<^verbatim>\<open>ASSERT_POSTCONDITION\<close> is defined outside the
  file. \<^verbatim>\<open>assertValid\<close> "fails fatally if absent": the macro panics when the condition is
  false and does nothing when it is true.
\<close>

definition ASSERT_POSTCONDITION :: "bool \<Rightarrow> error + unit" where
  "ASSERT_POSTCONDITION cond = (if cond then Inr () else Inl PostconditionPanic)"

definition assertValid :: "ptr \<Rightarrow> registry \<Rightarrow> (error + unit) \<times> registry" where
  "assertValid engine r =
     (let r1 = lock_guard r;
          (valid, r2) = sEngines_find engine r1;
          r3 = lock_guard_release r2
      in (ASSERT_POSTCONDITION valid, r3))"

text \<open>
  \<^verbatim>\<open>void FEngine::init()\<close> builds the engine's own resources through builders that are
  outside the file. Its first statement, \<^verbatim>\<open>CommandStream(*mDriver, ...)\<close>, dereferences
  \<^verbatim>\<open>mDriver\<close>: with a null driver the call does not come back.
\<close>

definition init :: "fengine \<Rightarrow> error + fengine" where
  "init e = (if mDriver e = nullptr then Inl NullDriverDereference else Inr (log_event InitCalled e))"

text \<open>
  \<^verbatim>\<open>FEngine* FEngine::create(Backend, Platform*, void*)\<close>. \<open>instance\<close> is the address
  of the new object and \<open>obj\<close> the object as the constructor leaves it (the constructor
  stores the platform it is given). With threading, the driver thread runs \<^verbatim>\<open>loop()\<close>
  up to the barrier while \<^verbatim>\<open>create\<close> waits for it. The result is the value returned
  (or the failure that keeps the call from returning), the object and the registry; None
  would be a call suspended in \<^verbatim>\<open>execute()\<close>.
\<close>

definition create_register ::
  "config \<Rightarrow> ptr \<Rightarrow> fengine \<Rightarrow> registry \<Rightarrow> ((error + ptr) \<times> fengine \<times> registry) option" where
  "create_register cfg instance e r =
     (let r1 = lock_guard_release (sEngines_insert instance (lock_guard r))
      in case init e of
           Inl err \<Rightarrow> Some (Inl err, e, r1)
         | Inr e1 \<Rightarrow>
             if \<not> UTILS_HAS_THREADING cfg
             then map_option (\<lambda>(continue, e2). (Inr instance, e2, r1)) (execute cfg e1)
             else Some (Inr instance, e1, r1))"

definition create ::
  "config \<Rightarrow> platform_env \<Rightarrow> ptr \<Rightarrow> ptr \<Rightarrow> fengine \<Rightarrow> registry \<Rightarrow>
     ((error + ptr) \<times> fengine \<times> registry) option" where
  "create cfg env platform instance obj r =
     (let e0 = obj\<lparr>mPlatform := platform\<rparr>
      in if \<not> UTILS_HAS_THREADING cfg then
           (let e1 = e0\<lparr>mPlatform := nullptr\<rparr>;
                e2 = (if platform = nullptr
                      then e1\<lparr>mPlatform := defaultPlatform env, mOwnPlatform := True\<rparr>
                      else e1);
                platform' = (if platform = nullptr then defaultPlatform env else platform);
                e3 = e2\<lparr>mDriver := createDriver env platform'\<rparr>
            in create_register cfg instance e3 r)
         else
           (let e1 = log_event DriverThreadStart e0;
                e2 = loop_startup env e1;
                e3 = log_event BarrierAwait e2
            in if mDriver e3 = nullptr
               then Some (Inr nullptr,
                          log_event DriverThreadJoin (e3\<lparr>driverThreadReturned := True\<rparr>), r)
               else create_register cfg instance e3 r))"

text \<open>
  A platform for the concrete instances: the default platform is at 2, and no platform can
  create a driver. The object at 100 is fresh from the constructor.
\<close>

definition failing_platform :: platform_env where
  "failing_platform = \<lparr>defaultPlatform = 2, createDriver = (\<lambda>p. nullptr)\<rparr>"

definition constructed_engine :: fengine where
  "constructed_engine =
     \<lparr>mPlatform = nullptr,
      mOwnPlatform = False,
      mDriver = nullptr,
      resourceLists = (\<lambda>T. []),
      mMaterialInstances = [],
      materialOf = (\<lambda>p. nullptr),
      mSkyboxMaterial = nullptr,
      mFullScreenTriangleRph = nullptr,
      mFullScreenTriangleIb = nullptr,
      mFullScreenTriangleVb = nullptr,
      mDefaultIblTexture = nullptr,
      mDefaultIbl = nullptr,
      mDefaultMaterial = nullptr,
      mCommandBufferQueue =
        \<lparr>circularBuffer = [], circularTail = 4096, mCommandBuffersToExecute = [],
         mExitRequested = False\<rparr>,
      driverThreadReturned = False,
      mTerminated = False,
      events = []\<rparr>"

definition empty_registry :: registry where
  "empty_registry = \<lparr>sEngines = [], sEnginesLock = False, registryEvents = []\<rparr>"

subsection \<open>gc and the job system\<close>

text \<open>
  Modelled from the spec: the class \<^verbatim>\<open>JobSystem\<close> is declared outside the file. It
  offers "createJob(), run(job, flags), runAndWait(parent) -- fork/join primitives with a
  don't signal individually flag for fire-and-forget children". A job is its index in the
  list of the jobs created; a job knows its parent and the parent knows the children created
  under it. \<^verbatim>\<open>run\<close> submits a job; \<^verbatim>\<open>runAndWait\<close> runs the parent and returns when
  it has finished, which is when all its children have: it does not return (None) if a
  child was never submitted. The work of a job here is nothing, or the sweep
  \<^verbatim>\<open>gc\<close> of one component manager on an entity manager.
\<close>

datatype gc_manager = FRenderableManager | FLightManager | FTransformManager | FCameraManager

datatype job_work = NoWork | ManagerGc gc_manager ptr

datatype run_flags = NO_FLAGS | DONT_SIGNAL

record job =
  job_parent :: "nat option"
  job_work :: job_work
  job_children :: "nat list"

record job_system =
  jobs :: "job list"
  submitted :: "(nat \<times> run_flags) list"
  run_calls :: "(nat \<times> run_flags) list"
  executed :: "job_work list"
  finished :: "nat list"

definition js_createJob :: "nat option \<Rightarrow> job_work \<Rightarrow> job_system \<Rightarrow> nat \<times> job_system" where
  "js_createJob parent work js =
     (let new = length (jobs js);
          known = (case parent of
                     None \<Rightarrow> jobs js
                   | Some p \<Rightarrow>
                       if p < length (jobs js)
                       then (jobs js)[p := (jobs js ! p)\<lparr>job_children := job_children (jobs js ! p) @ [new]\<rparr>]
                       else jobs js)
      in (new, js\<lparr>jobs := known @ [\<lparr>job_parent = parent, job_work = work, job_children = []\<rparr>]\<rparr>))"

definition js_run :: "nat \<Rightarrow> run_flags \<Rightarrow> job_system \<Rightarrow> job_system" where
  "js_run j flags js =
     js\<lparr>submitted := submitted js @ [(j, flags)], run_calls := run_calls js @ [(j, flags)]\<rparr>"

definition js_runAndWait :: "nat \<Rightarrow> job_system \<Rightarrow> job_system option" where
  "js_runAndWait parent js =
     (if parent < length (jobs js) \<and>
         (\<forall>c \<in> set (job_children (jobs js ! parent)). c \<in> fst ` set (submitted js))
      then (let children = job_children (jobs js ! parent)
            in Some (js\<lparr>submitted := filter (\<lambda>(j, flags). j \<notin> set children) (submitted js),
                        executed := executed js @ map (\<lambda>j. job_work (jobs js ! j)) children @
                                    [job_work (jobs js ! parent)],
                        finished := finished js @ children @ [parent]\<rparr>))
      else None)"

text \<open>
  \<^verbatim>\<open>void FEngine::gc()\<close>. \<open>em\<close> is the entity manager that
  \<^verbatim>\<open>std::ref(mEntityManager)\<close> refers to.
\<close>

definition gc :: "ptr \<Rightarrow> job_system \<Rightarrow> job_system option" where
  "gc em js0 =
     (let (parent, js1) = js_createJob None NoWork js0;
          (j1, js2) = js_createJob (Some parent) (ManagerGc FRenderableManager em) js1;
          js3 = js_run j1 DONT_SIGNAL js2;
          (j2, js4) = js_createJob (Some parent) (ManagerGc FLightManager em) js3;
          js5 = js_run j2 DONT_SIGNAL js4;
          (j3, js6) = js_createJob (Some parent) (ManagerGc FTransformManager em) js5;
          js7 = js_run j3 DONT_SIGNAL js6;
          (j4, js8) = js_createJob (Some parent) (ManagerGc FCameraManager em) js7;
          js9 = js_run j4 DONT_SIGNAL js8
      in js_runAndWait parent js9)"

definition idle_job_system :: job_system where
  "idle_job_system = \<lparr>jobs = [], submitted = [], run_calls = [], executed = [], finished = []\<rparr>"

text \<open>
  The resources of a type that have been terminated, and freed, in the order of the trace;
  and the bookkeeping between two states of the engine: the list of the type has no
  duplicates, and every resource that has left the list has been terminated once more and
  freed once more, and nothing else has.
\<close>

fun terminated_of :: "resource_type \<Rightarrow> event \<Rightarrow> ptr list" where
  "terminated_of T (Terminate U p) = (if U = T then [p] else [])"
| "terminated_of T ev = []"

fun freed_of :: "resource_type \<Rightarrow> event \<Rightarrow> ptr list" where
  "freed_of T (HeapDestroy U p) = (if U = T then [p] else [])"
| "freed_of T ev = []"

definition terminated :: "resource_type \<Rightarrow> event list \<Rightarrow> ptr list" where
  "terminated T evs = concat (map (terminated_of T) evs)"

definition freed :: "resource_type \<Rightarrow> event list \<Rightarrow> ptr list" where
  "freed T evs = concat (map (freed_of T) evs)"

definition accounted :: "resource_type \<Rightarrow> fengine \<Rightarrow> fengine \<Rightarrow> bool" where
  "accounted T e e' \<longleftrightarrow>
     distinct (resourceLists e' T) \<and>
     (\<exists>evs. events e' = events e @ evs \<and>
        (\<forall>p. count_list (resourceLists e' T) p + count_list (terminated T evs) p =
              count_list (resourceLists e T) p) \<and>
        (\<forall>p. count_list (resourceLists e' T) p + count_list (freed T evs) p =
              count_list (resourceLists e T) p))"

text \<open>All the material instances registered, over all materials.\<close>

definition all_instances :: "fengine \<Rightarrow> ptr list" where
  "all_instances e = concat (map snd (mMaterialInstances e))"

text \<open>
  The same bookkeeping for the material instances: the materials that have an entry are the
  same, and every instance that has left its list has been terminated once more and freed
  once more.
\<close>

definition instances_accounted :: "fengine \<Rightarrow> fengine \<Rightarrow> bool" where
  "instances_accounted e e' \<longleftrightarrow>
     map fst (mMaterialInstances e') = map fst (mMaterialInstances e) \<and>
     (\<exists>evs. events e' = events e @ evs \<and>
        (\<forall>p. count_list (all_instances e') p + count_list (terminated FMaterialInstance evs) p =
              count_list (all_instances e) p) \<and>
        (\<forall>p. count_list (all_instances e') p + count_list (freed FMaterialInstance evs) p =
              count_list (all_instances e) p))"

section \<open>Theorems\<close>

subsection \<open>streamAlloc\<close>

text \<open>
  C9. For every requested size strictly greater than 1024 bytes, streamAlloc returns
  null and makes no call to the driver's allocator; for every size of at most 1024 bytes
  it makes exactly one call, \<^verbatim>\<open>allocate(size, alignment)\<close>, and returns its result.
\<close>

theorem C9_streamAlloc:
  "(1024 < unat sz \<longrightarrow>
      fst (streamAlloc sz alignment d) = nullptr \<and>
      allocate_calls (snd (streamAlloc sz alignment d)) = allocate_calls d) \<and>
   (unat sz \<le> 1024 \<longrightarrow>
      fst (streamAlloc sz alignment d) = allocate d sz alignment \<and>
      allocate_calls (snd (streamAlloc sz alignment d)) = allocate_calls d @ [(sz, alignment)])"
proof -
  have gt: "(sz > 1024) = (1024 < unat sz)"
    by (simp add: word_less_nat_alt)
  show ?thesis
    unfolding streamAlloc_def driver_allocate_def gt by auto
qed

theorem C9_streamAlloc_witness:
  "1024 < unat (1025 :: size_t) \<and> unat (1024 :: size_t) \<le> 1024 \<and>
   fst (streamAlloc 1025 16 \<lparr>allocate = (\<lambda>s a. 4096), allocate_calls = []\<rparr>) = nullptr \<and>
   allocate_calls (snd (streamAlloc 1025 16 \<lparr>allocate = (\<lambda>s a. 4096), allocate_calls = []\<rparr>)) = [] \<and>
   fst (streamAlloc 1024 16 \<lparr>allocate = (\<lambda>s a. 4096), allocate_calls = []\<rparr>) = 4096 \<and>
   allocate_calls (snd (streamAlloc 1024 16 \<lparr>allocate = (\<lambda>s a. 4096), allocate_calls = []\<rparr>)) = [(1024, 16)]"
  using C9_streamAlloc [of 1025 16 "\<lparr>allocate = (\<lambda>s a. 4096), allocate_calls = []\<rparr>"]
        C9_streamAlloc [of 1024 16 "\<lparr>allocate = (\<lambda>s a. 4096), allocate_calls = []\<rparr>"]
  by simp

subsection \<open>createRenderable\<close>

text \<open>
  C10. createRenderable(builder, entity) leaves the entity with a transform component:
  if it had none before the call, the component created has the identity transform and
  no parent; if it had one, that component is unchanged. The transform components of
  all other entities are unchanged as well.
\<close>

theorem C10_createRenderable_transform:
  "tcm_hasComponent e (createRenderable builder e m) \<and>
   (\<not> tcm_hasComponent e m \<longrightarrow>
      mTransformManager (createRenderable builder e m) e =
        Some \<lparr>tc_parent = 0, tc_local = [[1, 0, 0, 0], [0, 1, 0, 0], [0, 0, 1, 0], [0, 0, 0, 1]]\<rparr>) \<and>
   (tcm_hasComponent e m \<longrightarrow>
      mTransformManager (createRenderable builder e m) e = mTransformManager m e) \<and>
   (\<forall>e'. e' \<noteq> e \<longrightarrow>
      mTransformManager (createRenderable builder e m) e' = mTransformManager m e')"
  by (auto simp: createRenderable_def rcm_create_def tcm_hasComponent_def tcm_create_def
                 mat4f_default_def Let_def)

theorem C10_createRenderable_transform_witness:
  "\<not> tcm_hasComponent 3 \<lparr>mRenderableManager = Map.empty,
        mTransformManager = [5 \<mapsto> \<lparr>tc_parent = 2, tc_local = []\<rparr>]\<rparr> \<and>
   tcm_hasComponent 5 \<lparr>mRenderableManager = Map.empty,
        mTransformManager = [5 \<mapsto> \<lparr>tc_parent = 2, tc_local = []\<rparr>]\<rparr> \<and>
   (3::nat) \<noteq> 5 \<and>
   mTransformManager (createRenderable 7 3 \<lparr>mRenderableManager = Map.empty,
        mTransformManager = [5 \<mapsto> \<lparr>tc_parent = 2, tc_local = []\<rparr>]\<rparr>) 3 =
     Some \<lparr>tc_parent = 0, tc_local = [[1, 0, 0, 0], [0, 1, 0, 0], [0, 0, 1, 0], [0, 0, 0, 1]]\<rparr> \<and>
   mTransformManager (createRenderable 7 5 \<lparr>mRenderableManager = Map.empty,
        mTransformManager = [5 \<mapsto> \<lparr>tc_parent = 2, tc_local = []\<rparr>]\<rparr>) 5 =
     Some \<lparr>tc_parent = 2, tc_local = []\<rparr> \<and>
   mTransformManager (createRenderable 7 3 \<lparr>mRenderableManager = Map.empty,
        mTransformManager = [5 \<mapsto> \<lparr>tc_parent = 2, tc_local = []\<rparr>]\<rparr>) 5 =
     Some \<lparr>tc_parent = 2, tc_local = []\<rparr>"
  using C10_createRenderable_transform [of 3 7 "\<lparr>mRenderableManager = Map.empty,
        mTransformManager = [5 \<mapsto> \<lparr>tc_parent = 2, tc_local = []\<rparr>]\<rparr>"]
        C10_createRenderable_transform [of 5 7 "\<lparr>mRenderableManager = Map.empty,
        mTransformManager = [5 \<mapsto> \<lparr>tc_parent = 2, tc_local = []\<rparr>]\<rparr>"]
  by (simp add: tcm_hasComponent_def)

subsection \<open>Trace and list lemmas\<close>

lemma events_log_event [simp]: "events (log_event ev e) = events e @ [ev]"
  by (simp add: log_event_def)

lemma events_record_command [simp]: "events (record_command c e) = events e"
  by (simp add: record_command_def)

lemma events_set_list [simp]: "events (set_list list l e) = events e"
  by (cases list) simp_all

lemma events_item_terminate [simp]:
  "events (item_terminate T p e) = events e @ [Terminate T p]"
  by (simp add: item_terminate_def)

lemma events_heap_destroy [simp]:
  "events (heap_destroy T p e) = events e @ [HeapDestroy T p]"
  by (simp add: heap_destroy_def)

lemma map_of_instances_update:
  "map_of (map (\<lambda>(k, v). if k = m then (k, l) else (k, v)) xs) m' =
     (if m' = m then (case map_of xs m of None \<Rightarrow> None | Some v \<Rightarrow> Some l) else map_of xs m')"
  by (induction xs) (auto split: option.splits)

lemma get_list_log_event [simp]: "get_list list (log_event ev e) = get_list list e"
  by (cases list) (simp_all add: log_event_def)

lemma get_list_record_command [simp]: "get_list list (record_command c e) = get_list list e"
  by (cases list) (simp_all add: record_command_def)

lemma get_list_item_terminate [simp]: "get_list list (item_terminate T p e) = get_list list e"
  by (simp add: item_terminate_def)

lemma get_list_heap_destroy [simp]: "get_list list (heap_destroy T p e) = get_list list e"
  by (simp add: heap_destroy_def)

lemma get_list_set_list_same:
  "get_list list e \<noteq> [] \<Longrightarrow> get_list list (set_list list l e) = l"
  by (cases list) (auto simp: map_of_instances_update split: option.splits)

lemma terminateAndDestroy_null: "terminateAndDestroy cfg nullptr list e = e"
  by (simp add: terminateAndDestroy_def)

lemma terminateAndDestroy_present:
  assumes "p \<noteq> nullptr" "p \<in> set (get_list list e)"
  shows "events (terminateAndDestroy cfg p list e) =
           events e @ [ListRemove (element_type list) p, Terminate (element_type list) p,
                       HeapDestroy (element_type list) p]"
    and "get_list list (terminateAndDestroy cfg p list e) = removeAll p (get_list list e)"
proof -
  from assms(2) have ne: "get_list list e \<noteq> []" by auto
  show "events (terminateAndDestroy cfg p list e) =
           events e @ [ListRemove (element_type list) p, Terminate (element_type list) p,
                       HeapDestroy (element_type list) p]"
    using assms by (simp add: terminateAndDestroy_def rl_remove_def)
  show "get_list list (terminateAndDestroy cfg p list e) = removeAll p (get_list list e)"
    using assms ne by (simp add: terminateAndDestroy_def rl_remove_def get_list_set_list_same)
qed

lemma terminateAndDestroy_absent:
  assumes "p \<noteq> nullptr" "p \<notin> set (get_list list e)"
  shows "terminateAndDestroy cfg p list e =
           (if NDEBUG cfg then e else log_event (LogObjectDoesntExist (element_type list) p) e)"
  using assms by (simp add: terminateAndDestroy_def rl_remove_def)

lemma terminateAndDestroy_twice_frees_once:
  "count_list (events (terminateAndDestroy cfg p list (terminateAndDestroy cfg p list e)))
              (HeapDestroy (element_type list) p) =
   count_list (events e) (HeapDestroy (element_type list) p) +
     (if p \<noteq> nullptr \<and> p \<in> set (get_list list e) then 1 else 0)"
proof (cases "p = nullptr")
  case True
  then show ?thesis by (simp add: terminateAndDestroy_null)
next
  case nonnull: False
  show ?thesis
  proof (cases "p \<in> set (get_list list e)")
    case True
    let ?e1 = "terminateAndDestroy cfg p list e"
    from nonnull True have ev1: "events ?e1 = events e @ [ListRemove (element_type list) p,
          Terminate (element_type list) p, HeapDestroy (element_type list) p]"
      and l1: "get_list list ?e1 = removeAll p (get_list list e)"
      by (rule terminateAndDestroy_present)+
    from l1 have "p \<notin> set (get_list list ?e1)" by simp
    with nonnull have "terminateAndDestroy cfg p list ?e1 =
        (if NDEBUG cfg then ?e1 else log_event (LogObjectDoesntExist (element_type list) p) ?e1)"
      by (rule terminateAndDestroy_absent)
    with ev1 nonnull True show ?thesis by simp
  next
    case False
    with nonnull have e1: "terminateAndDestroy cfg p list e =
        (if NDEBUG cfg then e else log_event (LogObjectDoesntExist (element_type list) p) e)"
      by (rule terminateAndDestroy_absent)
    show ?thesis
    proof (cases "NDEBUG cfg")
      case True
      with e1 False show ?thesis by simp
    next
      case ndbg: False
      let ?e1 = "log_event (LogObjectDoesntExist (element_type list) p) e"
      from False have "p \<notin> set (get_list list ?e1)" by simp
      with nonnull have "terminateAndDestroy cfg p list ?e1 =
        (if NDEBUG cfg then ?e1 else log_event (LogObjectDoesntExist (element_type list) p) ?e1)"
        by (rule terminateAndDestroy_absent)
      with e1 ndbg False show ?thesis by simp
    qed
  qed
qed

subsection \<open>terminateAndDestroy\<close>

text \<open>
  C3 (amended). The generic destroy is a no-op when the pointer is null. When the pointer
  is in the list it is removed from the list, then terminated, then freed, in that order.
  When it is non-null and absent from the list nothing is terminated or freed and the
  list is unchanged; the call returns normally, and it logs "object doesn't exist" in debug
  builds only (nothing when NDEBUG is defined). So two calls on the same pointer free it
  once.
\<close>

theorem C3_terminateAndDestroy:
  "(p = nullptr \<longrightarrow> terminateAndDestroy cfg p list e = e) \<and>
   (p \<noteq> nullptr \<and> p \<in> set (get_list list e) \<longrightarrow>
      events (terminateAndDestroy cfg p list e) =
        events e @ [ListRemove (element_type list) p, Terminate (element_type list) p,
                    HeapDestroy (element_type list) p] \<and>
      get_list list (terminateAndDestroy cfg p list e) = removeAll p (get_list list e)) \<and>
   (p \<noteq> nullptr \<and> p \<notin> set (get_list list e) \<longrightarrow>
      terminateAndDestroy cfg p list e =
        e\<lparr>events := events e @
             (if NDEBUG cfg then [] else [LogObjectDoesntExist (element_type list) p])\<rparr>) \<and>
   count_list (events (terminateAndDestroy cfg p list (terminateAndDestroy cfg p list e)))
              (HeapDestroy (element_type list) p) =
     count_list (events e) (HeapDestroy (element_type list) p) +
       (if p \<noteq> nullptr \<and> p \<in> set (get_list list e) then 1 else 0)"
proof (intro conjI impI)
  assume "p = nullptr"
  then show "terminateAndDestroy cfg p list e = e"
    by (simp add: terminateAndDestroy_null)
next
  assume a: "p \<noteq> nullptr \<and> p \<in> set (get_list list e)"
  then show "events (terminateAndDestroy cfg p list e) =
        events e @ [ListRemove (element_type list) p, Terminate (element_type list) p,
                    HeapDestroy (element_type list) p]"
    by (simp add: terminateAndDestroy_present)
  from a show "get_list list (terminateAndDestroy cfg p list e) = removeAll p (get_list list e)"
    by (simp add: terminateAndDestroy_present)
next
  assume "p \<noteq> nullptr \<and> p \<notin> set (get_list list e)"
  then show "terminateAndDestroy cfg p list e =
        e\<lparr>events := events e @
             (if NDEBUG cfg then [] else [LogObjectDoesntExist (element_type list) p])\<rparr>"
    by (simp add: terminateAndDestroy_absent log_event_def)
next
  show "count_list (events (terminateAndDestroy cfg p list (terminateAndDestroy cfg p list e)))
              (HeapDestroy (element_type list) p) =
     count_list (events e) (HeapDestroy (element_type list) p) +
       (if p \<noteq> nullptr \<and> p \<in> set (get_list list e) then 1 else 0)"
    by (rule terminateAndDestroy_twice_frees_once)
qed

text \<open>
  C3 as stated says that the destroy of an absent pointer is logged. In a release build
  (NDEBUG defined) it is not: the trace gets no entry.
\<close>

theorem C3_release_build_counterexample:
  "5 \<noteq> nullptr \<and> 5 \<notin> set (get_list (MemberList FTexture) example_engine) \<and>
   LogObjectDoesntExist FTexture 5 \<notin>
     set (events (terminateAndDestroy \<lparr>UTILS_HAS_THREADING = True, NDEBUG = True\<rparr> 5
                    (MemberList FTexture) example_engine))"
  by (simp add: terminateAndDestroy_def rl_remove_def example_engine_def nullptr_def)

theorem C3_terminateAndDestroy_witness:
  "terminateAndDestroy \<lparr>UTILS_HAS_THREADING = True, NDEBUG = False\<rparr> nullptr
      (MemberList FTexture) example_engine = example_engine \<and>
   12 \<noteq> nullptr \<and> 12 \<in> set (get_list (MemberList FTexture) example_engine) \<and>
   events (terminateAndDestroy \<lparr>UTILS_HAS_THREADING = True, NDEBUG = False\<rparr> 12
      (MemberList FTexture) example_engine) =
     [ListRemove FTexture 12, Terminate FTexture 12, HeapDestroy FTexture 12] \<and>
   get_list (MemberList FTexture)
     (terminateAndDestroy \<lparr>UTILS_HAS_THREADING = True, NDEBUG = False\<rparr> 12
        (MemberList FTexture) example_engine) = [] \<and>
   5 \<noteq> nullptr \<and> 5 \<notin> set (get_list (MemberList FTexture) example_engine) \<and>
   events (terminateAndDestroy \<lparr>UTILS_HAS_THREADING = True, NDEBUG = False\<rparr> 5
      (MemberList FTexture) example_engine) = [LogObjectDoesntExist FTexture 5] \<and>
   count_list (events (terminateAndDestroy \<lparr>UTILS_HAS_THREADING = True, NDEBUG = False\<rparr> 12
      (MemberList FTexture) (terminateAndDestroy \<lparr>UTILS_HAS_THREADING = True, NDEBUG = False\<rparr> 12
      (MemberList FTexture) example_engine))) (HeapDestroy FTexture 12) = 1"
proof -
  have l: "resourceLists example_engine FTexture = [12]"
    and ev: "events example_engine = []"
    by (simp_all add: example_engine_def)
  have n: "(12::nat) \<noteq> nullptr" "(5::nat) \<noteq> nullptr"
    by (simp_all add: nullptr_def)
  show ?thesis
    using C3_terminateAndDestroy [of nullptr "\<lparr>UTILS_HAS_THREADING = True, NDEBUG = False\<rparr>"
            "MemberList FTexture" example_engine]
          C3_terminateAndDestroy [of 12 "\<lparr>UTILS_HAS_THREADING = True, NDEBUG = False\<rparr>"
            "MemberList FTexture" example_engine]
          C3_terminateAndDestroy [of 5 "\<lparr>UTILS_HAS_THREADING = True, NDEBUG = False\<rparr>"
            "MemberList FTexture" example_engine]
    by (simp add: l ev n)
qed

subsection \<open>destroy of a material\<close>

lemma terminateAndDestroy_not_member:
  assumes "p \<noteq> nullptr"
  shows "p \<notin> set (get_list list (terminateAndDestroy cfg p list e))"
proof (cases "p \<in> set (get_list list e)")
  case True
  with assms have "get_list list (terminateAndDestroy cfg p list e) = removeAll p (get_list list e)"
    by (rule terminateAndDestroy_present)
  then show ?thesis by simp
next
  case False
  with assms have "terminateAndDestroy cfg p list e =
      (if NDEBUG cfg then e else log_event (LogObjectDoesntExist (element_type list) p) e)"
    by (rule terminateAndDestroy_absent)
  with False show ?thesis by simp
qed

lemma destroy_material_refused:
  assumes "p \<noteq> nullptr" "map_of (mMaterialInstances e) p = Some instances" "instances \<noteq> []"
  shows "destroy_material cfg p e = e\<lparr>events := events e @ [PanicLogPrecondition p (length instances)]\<rparr>"
  using assms
  by (simp add: destroy_material_def ASSERT_PRECONDITION_NON_FATAL_def rl_empty_def rl_size_def
                log_event_def)

lemma destroy_material_no_instances:
  assumes "p \<noteq> nullptr"
    and "map_of (mMaterialInstances e) p = None \<or> map_of (mMaterialInstances e) p = Some []"
  shows "destroy_material cfg p e = terminateAndDestroy cfg p (MemberList FMaterial) e"
  using assms
  by (auto simp: destroy_material_def ASSERT_PRECONDITION_NON_FATAL_def rl_empty_def)

lemma destroy_material_instance_removes:
  assumes "i \<noteq> nullptr" "map_of (mMaterialInstances e) (materialOf e i) = Some instances"
  shows "\<exists>e'. destroy_material_instance cfg i e = Inr e' \<and>
              get_list (InstanceList (materialOf e i)) e' = removeAll i instances \<and>
              resourceLists e' = resourceLists e"
proof (cases "i \<in> set instances")
  case True
  let ?list = "InstanceList (materialOf e i)"
  from assms(2) True have mem: "i \<in> set (get_list ?list e)" by simp
  with assms(1) have "get_list ?list (terminateAndDestroy cfg i ?list e) = removeAll i (get_list ?list e)"
    by (rule terminateAndDestroy_present)
  moreover have "resourceLists (terminateAndDestroy cfg i ?list e) = resourceLists e"
    using assms(1) mem
    by (simp add: terminateAndDestroy_def rl_remove_def heap_destroy_def item_terminate_def
                  log_event_def record_command_def)
  ultimately show ?thesis
    using assms by (simp add: destroy_material_instance_def)
next
  case False
  let ?list = "InstanceList (materialOf e i)"
  from assms(2) False have "i \<notin> set (get_list ?list e)" by simp
  with assms(1) have "terminateAndDestroy cfg i ?list e =
      (if NDEBUG cfg then e else log_event (LogObjectDoesntExist (element_type ?list) i) e)"
    by (rule terminateAndDestroy_absent)
  with assms False show ?thesis
    by (simp add: destroy_material_instance_def log_event_def)
qed

text \<open>
  C2. For a material whose entry in the material-instance map is a non-empty list,
  destroy(material) reports the non-fatal precondition violation and returns with the
  engine unchanged but for that report: the material is still in the list of materials
  and its instance list is as before. When the material has no instance left (its entry
  is empty, or it never had one), destroy(material) goes through: the material is not in
  the list of materials afterwards, and if it was there it has been removed, terminated and
  freed.
\<close>

theorem C2_destroy_material:
  assumes "p \<noteq> nullptr"
  shows "(\<forall>instances. map_of (mMaterialInstances e) p = Some instances \<and> instances \<noteq> [] \<longrightarrow>
            destroy_material cfg p e =
              e\<lparr>events := events e @ [PanicLogPrecondition p (length instances)]\<rparr> \<and>
            resourceLists (destroy_material cfg p e) = resourceLists e \<and>
            mMaterialInstances (destroy_material cfg p e) = mMaterialInstances e) \<and>
         (map_of (mMaterialInstances e) p = None \<or> map_of (mMaterialInstances e) p = Some [] \<longrightarrow>
            p \<notin> set (resourceLists (destroy_material cfg p e) FMaterial) \<and>
            (p \<in> set (resourceLists e FMaterial) \<longrightarrow>
               events (destroy_material cfg p e) =
                 events e @ [ListRemove FMaterial p, Terminate FMaterial p, HeapDestroy FMaterial p]))"
proof (intro conjI allI impI)
  fix instances
  assume a: "map_of (mMaterialInstances e) p = Some instances \<and> instances \<noteq> []"
  with assms show eq: "destroy_material cfg p e =
      e\<lparr>events := events e @ [PanicLogPrecondition p (length instances)]\<rparr>"
    by (simp add: destroy_material_refused)
  show "resourceLists (destroy_material cfg p e) = resourceLists e"
    by (simp add: eq)
  show "mMaterialInstances (destroy_material cfg p e) = mMaterialInstances e"
    by (simp add: eq)
next
  assume a: "map_of (mMaterialInstances e) p = None \<or> map_of (mMaterialInstances e) p = Some []"
  with assms have eq: "destroy_material cfg p e = terminateAndDestroy cfg p (MemberList FMaterial) e"
    by (rule destroy_material_no_instances)
  from assms have "p \<notin> set (get_list (MemberList FMaterial)
                        (terminateAndDestroy cfg p (MemberList FMaterial) e))"
    by (rule terminateAndDestroy_not_member)
  then show "p \<notin> set (resourceLists (destroy_material cfg p e) FMaterial)"
    by (simp add: eq)
  assume "p \<in> set (resourceLists e FMaterial)"
  then have "p \<in> set (get_list (MemberList FMaterial) e)" by simp
  with assms have "events (terminateAndDestroy cfg p (MemberList FMaterial) e) =
      events e @ [ListRemove (element_type (MemberList FMaterial)) p,
                  Terminate (element_type (MemberList FMaterial)) p,
                  HeapDestroy (element_type (MemberList FMaterial)) p]"
    by (rule terminateAndDestroy_present)
  then show "events (destroy_material cfg p e) =
      events e @ [ListRemove FMaterial p, Terminate FMaterial p, HeapDestroy FMaterial p]"
    by (simp add: eq)
qed

lemma example_engine_with_instance_fields:
  "mMaterialInstances example_engine_with_instance = [(14, [20])]"
  "resourceLists example_engine_with_instance FMaterial = [14]"
  "events example_engine_with_instance = []"
  "materialOf example_engine_with_instance 20 = 14"
  by (simp_all add: example_engine_with_instance_def createMaterialInstance_def
                    example_engine_def nullptr_def rl_insert_def Let_def)

theorem C2_destroy_material_witness:
  "14 \<noteq> nullptr \<and>
   map_of (mMaterialInstances example_engine_with_instance) 14 = Some [20] \<and>
   destroy_material \<lparr>UTILS_HAS_THREADING = True, NDEBUG = True\<rparr> 14 example_engine_with_instance =
     example_engine_with_instance\<lparr>events := [PanicLogPrecondition 14 1]\<rparr> \<and>
   resourceLists (destroy_material \<lparr>UTILS_HAS_THREADING = True, NDEBUG = True\<rparr> 14
                    example_engine_with_instance) FMaterial = [14] \<and>
   map_of (mMaterialInstances example_engine) 14 = None \<and>
   14 \<in> set (resourceLists example_engine FMaterial) \<and>
   14 \<notin> set (resourceLists (destroy_material \<lparr>UTILS_HAS_THREADING = True, NDEBUG = True\<rparr> 14
                    example_engine) FMaterial) \<and>
   events (destroy_material \<lparr>UTILS_HAS_THREADING = True, NDEBUG = True\<rparr> 14 example_engine) =
     [ListRemove FMaterial 14, Terminate FMaterial 14, HeapDestroy FMaterial 14]"
proof -
  have n: "(14::nat) \<noteq> nullptr" by (simp add: nullptr_def)
  have e0: "mMaterialInstances example_engine = []" "resourceLists example_engine FMaterial = [14]"
    "events example_engine = []"
    by (simp_all add: example_engine_def)
  show ?thesis
    using C2_destroy_material [OF n, of example_engine_with_instance
            "\<lparr>UTILS_HAS_THREADING = True, NDEBUG = True\<rparr>"]
          C2_destroy_material [OF n, of example_engine
            "\<lparr>UTILS_HAS_THREADING = True, NDEBUG = True\<rparr>"]
    by (simp add: n e0 example_engine_with_instance_fields)
qed

subsection \<open>shutdown: the effect of the terminations\<close>

lemma cleanup_effect_refl: "cleanup_effect [] e e"
  by (simp add: cleanup_effect_def)

lemma cleanup_effect_trans:
  assumes "cleanup_effect evs1 e e1" "cleanup_effect evs2 e1 e2"
  shows "cleanup_effect (evs1 @ evs2) e e2"
  using assms by (simp add: cleanup_effect_def)

lemma cleanup_effect_log_event:
  "is_cleanup_event ev \<Longrightarrow> recorded_by ev = [] \<Longrightarrow> cleanup_effect [ev] e (log_event ev e)"
  by (simp add: cleanup_effect_def log_event_def)

lemma cleanup_effect_set_list: "cleanup_effect [] e (set_list list l e)"
  by (cases list) (simp_all add: cleanup_effect_def)

lemma cleanup_effect_item_terminate: "cleanup_effect [Terminate T p] e (item_terminate T p e)"
  by (simp add: cleanup_effect_def item_terminate_def log_event_def record_command_def)

lemma cleanup_effect_heap_destroy: "cleanup_effect [HeapDestroy T p] e (heap_destroy T p e)"
  by (simp add: cleanup_effect_def heap_destroy_def log_event_def)

lemma cleanup_effect_subsystem_terminate:
  "cleanup_effect [SubsystemTerminate s] e (subsystem_terminate s e)"
  by (simp add: cleanup_effect_def subsystem_terminate_def log_event_def record_command_def)

lemma cleanup_effect_destroyRenderPrimitive:
  "cleanup_effect [DriverApiCall (DestroyRenderPrimitive h)] e (driverApi_destroyRenderPrimitive h e)"
  by (simp add: cleanup_effect_def driverApi_destroyRenderPrimitive_def log_event_def
                record_command_def)

lemma cleanup_effect_terminateAndDestroy:
  "\<exists>evs. cleanup_effect evs e (terminateAndDestroy cfg p list e)"
proof -
  let ?T = "element_type list"
  have present: "\<exists>evs. cleanup_effect evs e
      (heap_destroy ?T p (item_terminate ?T p (log_event (ListRemove ?T p) (set_list list l e))))"
    for l
  proof -
    let ?e1 = "set_list list l e"
    let ?e2 = "log_event (ListRemove ?T p) ?e1"
    let ?e3 = "item_terminate ?T p ?e2"
    have "cleanup_effect [] e ?e1" by (rule cleanup_effect_set_list)
    moreover have "cleanup_effect [ListRemove ?T p] ?e1 ?e2"
      by (rule cleanup_effect_log_event) simp_all
    ultimately have "cleanup_effect ([] @ [ListRemove ?T p]) e ?e2"
      by (rule cleanup_effect_trans)
    then have "cleanup_effect (([] @ [ListRemove ?T p]) @ [Terminate ?T p]) e ?e3"
      using cleanup_effect_item_terminate by (rule cleanup_effect_trans)
    then have "cleanup_effect ((([] @ [ListRemove ?T p]) @ [Terminate ?T p]) @ [HeapDestroy ?T p])
        e (heap_destroy ?T p ?e3)"
      using cleanup_effect_heap_destroy by (rule cleanup_effect_trans)
    then show ?thesis by blast
  qed
  have absent: "\<exists>evs. cleanup_effect evs e (log_event (LogObjectDoesntExist ?T p) e)"
    using cleanup_effect_log_event [of "LogObjectDoesntExist ?T p" e] by auto
  have same: "\<exists>evs. cleanup_effect evs e e"
    using cleanup_effect_refl by blast
  show ?thesis
    unfolding terminateAndDestroy_def
    using present absent same
    by (simp split: prod.splits bool.splits)
qed

lemma cleanup_effect_destroy_material:
  "\<exists>evs. cleanup_effect evs e (destroy_material cfg p e)"
proof -
  have refused: "\<exists>evs. cleanup_effect evs e (log_event (PanicLogPrecondition p n) e)" for n
    using cleanup_effect_log_event [of "PanicLogPrecondition p n" e] by auto
  have same: "\<exists>evs. cleanup_effect evs e e"
    using cleanup_effect_refl by blast
  show ?thesis
    unfolding destroy_material_def ASSERT_PRECONDITION_NON_FATAL_def
    using refused same cleanup_effect_terminateAndDestroy [of e cfg p]
    by (simp split: option.splits)
qed

lemma cleanup_effect_foldl:
  assumes "\<And>s x. \<exists>evs. cleanup_effect evs s (f s x)"
  shows "\<exists>evs. cleanup_effect evs e (foldl f e xs)"
proof (induction xs arbitrary: e)
  case Nil
  show ?case using cleanup_effect_refl [of e] by auto
next
  case (Cons x xs)
  from assms obtain evs1 where "cleanup_effect evs1 e (f e x)" by blast
  moreover from Cons.IH obtain evs2 where "cleanup_effect evs2 (f e x) (foldl f (f e x) xs)" by blast
  ultimately have "cleanup_effect (evs1 @ evs2) e (foldl f (f e x) xs)"
    by (rule cleanup_effect_trans)
  then show ?case by auto
qed

lemma cleanup_effect_cleanupResourceList:
  "\<exists>evs. cleanup_effect evs e (cleanupResourceList cfg list e)"
proof -
  let ?T = "element_type list"
  let ?f = "\<lambda>s item. heap_destroy ?T item (item_terminate ?T item s)"
  have body: "\<exists>evs. cleanup_effect evs s (?f s x)" for s x
    using cleanup_effect_trans [OF cleanup_effect_item_terminate cleanup_effect_heap_destroy]
    by blast
  have sweep: "\<exists>evs. cleanup_effect evs e (foldl ?f (set_list list [] e1) copy)"
    if "\<exists>evs. cleanup_effect evs e e1" for e1 copy
  proof -
    from that obtain evs1 where "cleanup_effect evs1 e e1" by blast
    then have "cleanup_effect (evs1 @ []) e (set_list list [] e1)"
      using cleanup_effect_set_list by (rule cleanup_effect_trans)
    moreover obtain evs2 where
      "cleanup_effect evs2 (set_list list [] e1) (foldl ?f (set_list list [] e1) copy)"
      using cleanup_effect_foldl [of ?f, OF body] by blast
    ultimately show ?thesis using cleanup_effect_trans by blast
  qed
  have logged: "\<exists>evs. cleanup_effect evs e (log_event (LogLeaked ?T n) e)" for n
    using cleanup_effect_log_event [of "LogLeaked ?T n" e] by auto
  have same: "\<exists>evs. cleanup_effect evs e e"
    using cleanup_effect_refl by blast
  show ?thesis
    unfolding cleanupResourceList_def getListAndClear_def Let_def
    using sweep [OF logged] sweep [OF same] same
    by (simp split: prod.splits)
qed

lemma cleans_refl: "\<exists>evs. cleanup_effect evs e e"
  using cleanup_effect_refl by blast

lemma cleans_trans:
  assumes "\<exists>evs. cleanup_effect evs e e1" "\<exists>evs. cleanup_effect evs e1 e2"
  shows "\<exists>evs. cleanup_effect evs e e2"
  using assms cleanup_effect_trans by blast

lemma cleans_subsystem_terminate:
  "\<exists>evs. cleanup_effect evs e s \<Longrightarrow> \<exists>evs. cleanup_effect evs e (subsystem_terminate x s)"
  using cleanup_effect_subsystem_terminate cleans_trans by blast

lemma cleans_destroyRenderPrimitive:
  "\<exists>evs. cleanup_effect evs e s \<Longrightarrow>
   \<exists>evs. cleanup_effect evs e (driverApi_destroyRenderPrimitive h s)"
  using cleanup_effect_destroyRenderPrimitive cleans_trans by blast

lemma cleans_destroy:
  "\<exists>evs. cleanup_effect evs e s \<Longrightarrow> \<exists>evs. cleanup_effect evs e (destroy cfg T p s)"
  unfolding destroy_def using cleanup_effect_terminateAndDestroy cleans_trans by blast

lemma cleans_destroy_material:
  "\<exists>evs. cleanup_effect evs e s \<Longrightarrow> \<exists>evs. cleanup_effect evs e (destroy_material cfg p s)"
  using cleanup_effect_destroy_material cleans_trans by blast

lemma cleans_cleanupResourceList:
  "\<exists>evs. cleanup_effect evs e s \<Longrightarrow> \<exists>evs. cleanup_effect evs e (cleanupResourceList cfg list s)"
  using cleanup_effect_cleanupResourceList cleans_trans by blast

lemma cleans_cleanup_instances:
  assumes "\<exists>evs. cleanup_effect evs e s"
  shows "\<exists>evs. cleanup_effect evs e (cleanup_instances cfg s)"
proof -
  have "\<exists>evs. cleanup_effect evs s (cleanup_instances cfg s)"
    unfolding cleanup_instances_def
    by (rule cleanup_effect_foldl) (rule cleanup_effect_cleanupResourceList)
  with assms show ?thesis by (rule cleans_trans)
qed

lemma cleans_watermark:
  "\<exists>evs. cleanup_effect evs e (if NDEBUG cfg then e else log_event LogWatermark e)"
  using cleanup_effect_log_event [of LogWatermark e] cleans_refl [of e] by auto

lemma cleans_shutdown_own_state:
  "\<exists>evs. cleanup_effect evs e s \<Longrightarrow> \<exists>evs. cleanup_effect evs e (shutdown_own_state cfg s)"
  unfolding shutdown_own_state_def Let_def
  by (intro cleans_destroy_material cleans_destroy cleans_destroyRenderPrimitive
            cleans_subsystem_terminate)

lemma cleans_shutdown_cleanup:
  "\<exists>evs. cleanup_effect evs e s \<Longrightarrow> \<exists>evs. cleanup_effect evs e (shutdown_cleanup cfg s)"
  unfolding shutdown_cleanup_def Let_def
  by (intro cleans_cleanupResourceList cleans_cleanup_instances cleans_destroy_material)

lemma cleans_before_exit:
  "\<exists>evs. cleanup_effect evs e
      (shutdown_cleanup cfg (shutdown_own_state cfg
         (if NDEBUG cfg then e else log_event LogWatermark e)))"
  by (intro cleans_shutdown_cleanup cleans_shutdown_own_state cleans_watermark)

subsection \<open>execute and the driver loop\<close>

lemma foldl_execute_item:
  "foldl execute_item e buffers = e\<lparr>events := events e @ buffers_trace buffers\<rparr>"
  by (induction buffers arbitrary: e)
     (simp_all add: execute_item_def releaseBuffer_def commandStream_execute_def log_event_def
                    buffers_trace_def)

lemma execute_buffers:
  assumes "mCommandBuffersToExecute (mCommandBufferQueue e) \<noteq> []"
  shows "execute cfg e = Some (True,
           e\<lparr>mCommandBufferQueue := (mCommandBufferQueue e)\<lparr>mCommandBuffersToExecute := []\<rparr>,
             events := events e @
               WaitForCommandsReturned (mCommandBuffersToExecute (mCommandBufferQueue e)) #
               buffers_trace (mCommandBuffersToExecute (mCommandBufferQueue e))\<rparr>)"
  using assms
  by (simp add: execute_def waitForCommands_def Let_def foldl_execute_item log_event_def)

lemma execute_exit:
  assumes "mCommandBuffersToExecute (mCommandBufferQueue e) = []"
    and "mExitRequested (mCommandBufferQueue e) \<or> \<not> UTILS_HAS_THREADING cfg"
  shows "execute cfg e = Some (False, e\<lparr>events := events e @ [WaitForCommandsReturned []]\<rparr>)"
proof -
  have "(mCommandBufferQueue e)\<lparr>mCommandBuffersToExecute := []\<rparr> = mCommandBufferQueue e"
    using assms(1) by (metis command_buffer_queue.surjective command_buffer_queue.update_convs(3))
  with assms show ?thesis
    by (auto simp: execute_def waitForCommands_def Let_def log_event_def)
qed

lemma execute_suspended:
  assumes "mCommandBuffersToExecute (mCommandBufferQueue e) = []"
    and "\<not> mExitRequested (mCommandBufferQueue e)" "UTILS_HAS_THREADING cfg"
  shows "execute cfg e = None"
  using assms by (simp add: execute_def waitForCommands_def)

lemma loop_run_drains:
  assumes "mCommandBuffersToExecute (mCommandBufferQueue e) \<noteq> []"
    and "mExitRequested (mCommandBufferQueue e)"
  shows "loop_run cfg e = Some
           (e\<lparr>mCommandBufferQueue := (mCommandBufferQueue e)\<lparr>mCommandBuffersToExecute := []\<rparr>,
              events := events e @
                WaitForCommandsReturned (mCommandBuffersToExecute (mCommandBufferQueue e)) #
                buffers_trace (mCommandBuffersToExecute (mCommandBufferQueue e)) @
                [WaitForCommandsReturned [], DriverTerminate],
              driverThreadReturned := True\<rparr>)"
proof -
  let ?bufs = "mCommandBuffersToExecute (mCommandBufferQueue e)"
  let ?e1 = "e\<lparr>mCommandBufferQueue := (mCommandBufferQueue e)\<lparr>mCommandBuffersToExecute := []\<rparr>,
               events := events e @ WaitForCommandsReturned ?bufs # buffers_trace ?bufs\<rparr>"
  have first: "execute cfg e = Some (True, ?e1)"
    using assms(1) by (rule execute_buffers)
  have "mCommandBuffersToExecute (mCommandBufferQueue ?e1) = []"
    and "mExitRequested (mCommandBufferQueue ?e1) \<or> \<not> UTILS_HAS_THREADING cfg"
    using assms(2) by simp_all
  then have second: "execute cfg ?e1 = Some (False, ?e1\<lparr>events := events ?e1 @ [WaitForCommandsReturned []]\<rparr>)"
    by (rule execute_exit)
  have "driver_loop cfg ?e1 = Some (?e1\<lparr>events := events ?e1 @ [WaitForCommandsReturned []]\<rparr>)"
    by (subst driver_loop.simps) (simp add: second)
  then have "driver_loop cfg e = Some (?e1\<lparr>events := events ?e1 @ [WaitForCommandsReturned []]\<rparr>)"
    by (subst driver_loop.simps) (simp add: first)
  then show ?thesis
    by (simp add: loop_run_def driver_terminate_def log_event_def)
qed

lemma flushCommandBuffer_eq:
  "flushCommandBuffer e =
     e\<lparr>mCommandBufferQueue := (mCommandBufferQueue e)
          \<lparr>circularBuffer := [],
           circularTail := circularTail (mCommandBufferQueue e) +
                           length (circularBuffer (mCommandBufferQueue e)),
           mCommandBuffersToExecute := mCommandBuffersToExecute (mCommandBufferQueue e) @
             [\<lparr>slice_begin = circularTail (mCommandBufferQueue e),
               slice_commands = circularBuffer (mCommandBufferQueue e)\<rparr>]\<rparr>,
        events := events e @
          [DriverPurge,
           QueueFlush \<lparr>slice_begin = circularTail (mCommandBufferQueue e),
                       slice_commands = circularBuffer (mCommandBufferQueue e)\<rparr>]\<rparr>"
  by (simp add: flushCommandBuffer_def cbq_flush_def Let_def log_event_def)

lemma shutdown_exit_threaded:
  fixes e :: fengine
  defines "item \<equiv> \<lparr>slice_begin = circularTail (mCommandBufferQueue e),
                     slice_commands = circularBuffer (mCommandBufferQueue e)\<rparr>"
  defines "buffers \<equiv> mCommandBuffersToExecute (mCommandBufferQueue e) @ [item]"
  assumes "UTILS_HAS_THREADING cfg" "\<not> driverThreadReturned e"
  shows "\<exists>e'. shutdown_exit cfg e = Some e' \<and>
           events e' = events e @ [DriverPurge, QueueFlush item] @
             [RequestExit, WaitForCommandsReturned buffers] @ buffers_trace buffers @
             [WaitForCommandsReturned [], DriverTerminate, DriverThreadJoin] @
             [JobSystemEmancipate, MarkTerminated] \<and>
           mTerminated e' \<and> driverThreadReturned e' \<and>
           mCommandBuffersToExecute (mCommandBufferQueue e') = [] \<and>
           mExitRequested (mCommandBufferQueue e') \<and>
           resourceLists e' = resourceLists e \<and>
           mMaterialInstances e' = mMaterialInstances e"
proof -
  let ?e3 = "requestExit (flushCommandBuffer e)"
  have q3: "mCommandBuffersToExecute (mCommandBufferQueue ?e3) = buffers"
    and x3: "mExitRequested (mCommandBufferQueue ?e3)"
    and ev3: "events ?e3 = events e @ [DriverPurge, QueueFlush item, RequestExit]"
    and r3: "\<not> driverThreadReturned ?e3"
    using assms(4)
    by (simp_all add: flushCommandBuffer_eq requestExit_def cbq_requestExit_def log_event_def
                      item_def buffers_def)
  have ne: "mCommandBuffersToExecute (mCommandBufferQueue ?e3) \<noteq> []"
    by (simp add: q3 buffers_def)
  let ?r = "?e3\<lparr>mCommandBufferQueue := (mCommandBufferQueue ?e3)\<lparr>mCommandBuffersToExecute := []\<rparr>,
              events := events ?e3 @
                WaitForCommandsReturned (mCommandBuffersToExecute (mCommandBufferQueue ?e3)) #
                buffers_trace (mCommandBuffersToExecute (mCommandBufferQueue ?e3)) @
                [WaitForCommandsReturned [], DriverTerminate],
              driverThreadReturned := True\<rparr>"
  let ?e' = "log_event MarkTerminated
               ((log_event JobSystemEmancipate (log_event DriverThreadJoin ?r))\<lparr>mTerminated := True\<rparr>)"
  have "loop_run cfg ?e3 = Some ?r"
    using ne x3 by (rule loop_run_drains)
  then have "driverThread_join cfg ?e3 = Some (log_event DriverThreadJoin ?r)"
    using r3 by (simp add: driverThread_join_def)
  then have res: "shutdown_exit cfg e = Some ?e'"
    using assms(3) by (simp add: shutdown_exit_def Let_def)
  have "events ?e' = events e @ [DriverPurge, QueueFlush item] @
             [RequestExit, WaitForCommandsReturned buffers] @ buffers_trace buffers @
             [WaitForCommandsReturned [], DriverTerminate, DriverThreadJoin] @
             [JobSystemEmancipate, MarkTerminated]"
    by (simp add: q3 ev3 log_event_def)
  moreover have "mTerminated ?e'" "driverThreadReturned ?e'"
    "mCommandBuffersToExecute (mCommandBufferQueue ?e') = []"
    by (simp_all add: log_event_def)
  moreover have "mExitRequested (mCommandBufferQueue ?e')"
    using x3 by (simp add: log_event_def)
  moreover have "resourceLists ?e' = resourceLists e" "mMaterialInstances ?e' = mMaterialInstances e"
    by (simp_all add: log_event_def requestExit_def flushCommandBuffer_eq)
  ultimately show ?thesis using res by blast
qed

lemma shutdown_exit_single_threaded:
  fixes e :: fengine
  defines "item \<equiv> \<lparr>slice_begin = circularTail (mCommandBufferQueue e),
                     slice_commands = circularBuffer (mCommandBufferQueue e)\<rparr>"
  defines "buffers \<equiv> mCommandBuffersToExecute (mCommandBufferQueue e) @ [item]"
  assumes "\<not> UTILS_HAS_THREADING cfg"
  shows "\<exists>e'. shutdown_exit cfg e = Some e' \<and>
           events e' = events e @ [DriverPurge, QueueFlush item] @
             [WaitForCommandsReturned buffers] @ buffers_trace buffers @ [RequestExit] @
             [JobSystemEmancipate, MarkTerminated] \<and>
           mTerminated e' \<and>
           mCommandBuffersToExecute (mCommandBufferQueue e') = [] \<and>
           mExitRequested (mCommandBufferQueue e') \<and>
           resourceLists e' = resourceLists e \<and>
           mMaterialInstances e' = mMaterialInstances e"
proof -
  let ?e1 = "flushCommandBuffer e"
  have q1: "mCommandBuffersToExecute (mCommandBufferQueue ?e1) = buffers"
    and ev1: "events ?e1 = events e @ [DriverPurge, QueueFlush item]"
    by (simp_all add: flushCommandBuffer_eq item_def buffers_def)
  have ne: "mCommandBuffersToExecute (mCommandBufferQueue ?e1) \<noteq> []"
    by (simp add: q1 buffers_def)
  let ?e2 = "?e1\<lparr>mCommandBufferQueue := (mCommandBufferQueue ?e1)\<lparr>mCommandBuffersToExecute := []\<rparr>,
               events := events ?e1 @
                 WaitForCommandsReturned (mCommandBuffersToExecute (mCommandBufferQueue ?e1)) #
                 buffers_trace (mCommandBuffersToExecute (mCommandBufferQueue ?e1))\<rparr>"
  let ?e' = "log_event MarkTerminated
               ((log_event JobSystemEmancipate (requestExit ?e2))\<lparr>mTerminated := True\<rparr>)"
  have "execute cfg ?e1 = Some (True, ?e2)"
    using ne by (rule execute_buffers)
  then have res: "shutdown_exit cfg e = Some ?e'"
    using assms(3) by (simp add: shutdown_exit_def Let_def)
  have "events ?e' = events e @ [DriverPurge, QueueFlush item] @
             [WaitForCommandsReturned buffers] @ buffers_trace buffers @ [RequestExit] @
             [JobSystemEmancipate, MarkTerminated]"
    by (simp add: q1 ev1 log_event_def requestExit_def)
  moreover have "mTerminated ?e'"
    "mCommandBuffersToExecute (mCommandBufferQueue ?e') = []"
    "mExitRequested (mCommandBufferQueue ?e')"
    by (simp_all add: log_event_def requestExit_def cbq_requestExit_def)
  moreover have "resourceLists ?e' = resourceLists e" "mMaterialInstances ?e' = mMaterialInstances e"
    by (simp_all add: log_event_def requestExit_def flushCommandBuffer_eq)
  ultimately show ?thesis using res by blast
qed

subsection \<open>shutdown: the order of the steps\<close>



subsection \<open>The driver thread against any run of the client thread\<close>

lemma flushed_buffers_simps [simp]:
  "flushed_buffers [] = []"
  "flushed_buffers (ev # evs) = flushed_of ev @ flushed_buffers evs"
  by (simp_all add: flushed_buffers_def)

lemma executed_buffers_simps [simp]:
  "executed_buffers [] = []"
  "executed_buffers (ev # evs) = executed_of ev @ executed_buffers evs"
  by (simp_all add: executed_buffers_def)

lemma released_buffers_simps [simp]:
  "released_buffers [] = []"
  "released_buffers (ev # evs) = released_of ev @ released_buffers evs"
  by (simp_all add: released_buffers_def)

lemma driver_events_simps [simp]:
  "driver_events [] = []"
  "driver_events (ev # evs) = (if is_driver_event ev then ev # driver_events evs else driver_events evs)"
  by (simp_all add: driver_events_def)

lemma flushed_buffers_append [simp]:
  "flushed_buffers (xs @ ys) = flushed_buffers xs @ flushed_buffers ys"
  by (simp add: flushed_buffers_def)

lemma executed_buffers_append [simp]:
  "executed_buffers (xs @ ys) = executed_buffers xs @ executed_buffers ys"
  by (simp add: executed_buffers_def)

lemma released_buffers_append [simp]:
  "released_buffers (xs @ ys) = released_buffers xs @ released_buffers ys"
  by (simp add: released_buffers_def)

lemma driver_events_append [simp]:
  "driver_events (xs @ ys) = driver_events xs @ driver_events ys"
  by (simp add: driver_events_def)

lemma buffers_trace_append [simp]:
  "buffers_trace (xs @ ys) = buffers_trace xs @ buffers_trace ys"
  by (simp add: buffers_trace_def)

lemma flushed_buffers_trace [simp]: "flushed_buffers (buffers_trace batch) = []"
  by (induction batch) (simp_all add: buffers_trace_def)

lemma driver_events_buffers_trace [simp]: "driver_events (buffers_trace batch) = buffers_trace batch"
  by (induction batch) (simp_all add: buffers_trace_def)

lemma executed_buffers_trace [simp]:
  "executed_buffers (buffers_trace batch) = filter (\<lambda>item. slice_begin item \<noteq> nullptr) batch"
  by (induction batch) (simp_all add: buffers_trace_def)

lemma released_buffers_trace [simp]:
  "released_buffers (buffers_trace batch) = filter (\<lambda>item. slice_begin item \<noteq> nullptr) batch"
  by (induction batch) (simp_all add: buffers_trace_def)















lemma loop_run_returns_iff:
  "(\<exists>e'. loop_run cfg e = Some e') \<longleftrightarrow>
     mExitRequested (mCommandBufferQueue e) \<or> \<not> UTILS_HAS_THREADING cfg"
proof (cases "mCommandBuffersToExecute (mCommandBufferQueue e) = []")
  case empty: True
  show ?thesis
  proof (cases "mExitRequested (mCommandBufferQueue e) \<or> \<not> UTILS_HAS_THREADING cfg")
    case True
    with empty have "execute cfg e = Some (False, e\<lparr>events := events e @ [WaitForCommandsReturned []]\<rparr>)"
      by (rule execute_exit)
    then have "driver_loop cfg e = Some (e\<lparr>events := events e @ [WaitForCommandsReturned []]\<rparr>)"
      by (subst driver_loop.simps) simp
    with True show ?thesis by (simp add: loop_run_def)
  next
    case False
    with empty have "execute cfg e = None" by (intro execute_suspended) simp_all
    then have "driver_loop cfg e = None"
      by (subst driver_loop.simps) simp
    with False show ?thesis by (simp add: loop_run_def)
  qed
next
  case pending: False
  let ?pending = "mCommandBuffersToExecute (mCommandBufferQueue e)"
  let ?e1 = "e\<lparr>mCommandBufferQueue := (mCommandBufferQueue e)\<lparr>mCommandBuffersToExecute := []\<rparr>,
               events := events e @ WaitForCommandsReturned ?pending # buffers_trace ?pending\<rparr>"
  from pending have first: "execute cfg e = Some (True, ?e1)"
    by (rule execute_buffers)
  have empty1: "mCommandBuffersToExecute (mCommandBufferQueue ?e1) = []"
    by simp
  show ?thesis
  proof (cases "mExitRequested (mCommandBufferQueue e) \<or> \<not> UTILS_HAS_THREADING cfg")
    case True
    then have "mExitRequested (mCommandBufferQueue ?e1) \<or> \<not> UTILS_HAS_THREADING cfg"
      by simp
    with empty1 have "execute cfg ?e1 =
        Some (False, ?e1\<lparr>events := events ?e1 @ [WaitForCommandsReturned []]\<rparr>)"
      by (rule execute_exit)
    then have "driver_loop cfg ?e1 = Some (?e1\<lparr>events := events ?e1 @ [WaitForCommandsReturned []]\<rparr>)"
      by (subst driver_loop.simps) simp
    then have "driver_loop cfg e = Some (?e1\<lparr>events := events ?e1 @ [WaitForCommandsReturned []]\<rparr>)"
      by (subst driver_loop.simps) (simp add: first)
    with True show ?thesis by (simp add: loop_run_def)
  next
    case False
    then have "\<not> mExitRequested (mCommandBufferQueue ?e1)" "UTILS_HAS_THREADING cfg"
      by simp_all
    with empty1 have "execute cfg ?e1 = None" by (rule execute_suspended)
    then have "driver_loop cfg ?e1 = None"
      by (subst driver_loop.simps) simp
    then have "driver_loop cfg e = None"
      by (subst driver_loop.simps) (simp add: first)
    with False show ?thesis by (simp add: loop_run_def)
  qed
qed



subsection \<open>shutdown: the lists that are swept and the lists that are not\<close>

lemma untouched_refl: "untouched T e e"
  by (simp add: untouched_def)

lemma untouched_trans:
  assumes "untouched T e e1" "untouched T e1 e2"
  shows "untouched T e e2"
proof -
  from assms obtain evs1 evs2 where
    "events e1 = events e @ evs1" "\<forall>p. Terminate T p \<notin> set evs1 \<and> HeapDestroy T p \<notin> set evs1"
    "events e2 = events e1 @ evs2" "\<forall>p. Terminate T p \<notin> set evs2 \<and> HeapDestroy T p \<notin> set evs2"
    by (auto simp: untouched_def)
  then have "events e2 = events e @ (evs1 @ evs2) \<and>
      (\<forall>p. Terminate T p \<notin> set (evs1 @ evs2) \<and> HeapDestroy T p \<notin> set (evs1 @ evs2))"
    by simp
  with assms show ?thesis
    unfolding untouched_def by metis
qed

lemma untouched_one_event:
  assumes "resourceLists e' T = resourceLists e T" "events e' = events e @ evs"
    "\<forall>p. Terminate T p \<notin> set evs \<and> HeapDestroy T p \<notin> set evs"
  shows "untouched T e e'"
  using assms unfolding untouched_def by blast

lemma untouched_subsystem_terminate:
  "untouched T e s \<Longrightarrow> untouched T e (subsystem_terminate x s)"
  by (erule untouched_trans, rule untouched_one_event [where evs = "[SubsystemTerminate x]"])
     (simp_all add: subsystem_terminate_def record_command_def log_event_def)

lemma untouched_destroyRenderPrimitive:
  "untouched T e s \<Longrightarrow> untouched T e (driverApi_destroyRenderPrimitive h s)"
  by (erule untouched_trans,
      rule untouched_one_event [where evs = "[DriverApiCall (DestroyRenderPrimitive h)]"])
     (simp_all add: driverApi_destroyRenderPrimitive_def record_command_def log_event_def)

lemma resourceLists_set_list_other:
  "element_type list \<noteq> T \<Longrightarrow> resourceLists (set_list list l e) T = resourceLists e T"
  by (cases list) simp_all

lemma untouched_terminateAndDestroy:
  assumes "untouched T e s" "element_type list \<noteq> T"
  shows "untouched T e (terminateAndDestroy cfg p list s)"
proof -
  let ?U = "element_type list"
  have "untouched T s (terminateAndDestroy cfg p list s)"
  proof (cases "p \<noteq> nullptr \<and> p \<in> set (get_list list s)")
    case True
    then have "events (terminateAndDestroy cfg p list s) =
        events s @ [ListRemove ?U p, Terminate ?U p, HeapDestroy ?U p]"
      by (simp add: terminateAndDestroy_present)
    moreover have "resourceLists (terminateAndDestroy cfg p list s) T = resourceLists s T"
      using True assms(2)
      by (simp add: terminateAndDestroy_def rl_remove_def heap_destroy_def item_terminate_def
                    log_event_def record_command_def resourceLists_set_list_other)
    ultimately show ?thesis
      using assms(2) by (intro untouched_one_event) auto
  next
    case False
    then have "terminateAndDestroy cfg p list s = s \<or>
        terminateAndDestroy cfg p list s = log_event (LogObjectDoesntExist ?U p) s"
      by (auto simp: terminateAndDestroy_def rl_remove_def)
    then show ?thesis
    proof
      assume "terminateAndDestroy cfg p list s = s"
      then show ?thesis by (simp add: untouched_refl)
    next
      assume "terminateAndDestroy cfg p list s = log_event (LogObjectDoesntExist ?U p) s"
      then show ?thesis
        by (intro untouched_one_event [where evs = "[LogObjectDoesntExist ?U p]"])
           (simp_all add: log_event_def)
    qed
  qed
  with assms(1) show ?thesis by (rule untouched_trans)
qed

lemma untouched_destroy:
  "untouched T e s \<Longrightarrow> U \<noteq> T \<Longrightarrow> untouched T e (destroy cfg U p s)"
  unfolding destroy_def by (rule untouched_terminateAndDestroy) simp_all

lemma untouched_destroy_material:
  assumes "untouched T e s" "FMaterial \<noteq> T"
  shows "untouched T e (destroy_material cfg p s)"
proof -
  have td: "untouched T e (terminateAndDestroy cfg p (MemberList FMaterial) s')"
    if "untouched T e s'" for s'
    using that assms(2) by (rule untouched_terminateAndDestroy [where list = "MemberList FMaterial", simplified])
  have refused: "untouched T e (log_event (PanicLogPrecondition p n) s)" for n
    by (rule untouched_trans [OF assms(1)],
        rule untouched_one_event [where evs = "[PanicLogPrecondition p n]"])
       (simp_all add: log_event_def)
  show ?thesis
    unfolding destroy_material_def ASSERT_PRECONDITION_NON_FATAL_def
    using td [OF assms(1)] refused assms(1)
    by (simp split: option.splits)
qed

lemma untouched_sweep:
  assumes "U \<noteq> T"
  shows "untouched T s (foldl (\<lambda>s item. heap_destroy U item (item_terminate U item s)) s copy)"
proof (induction copy arbitrary: s)
  case Nil
  show ?case by (simp add: untouched_refl)
next
  case (Cons item copy)
  have "untouched T s (heap_destroy U item (item_terminate U item s))"
    using assms
    by (intro untouched_one_event [where evs = "[Terminate U item, HeapDestroy U item]"])
       (simp_all add: heap_destroy_def item_terminate_def record_command_def log_event_def)
  then show ?case
    using Cons.IH by (simp, rule untouched_trans)
qed

lemma untouched_cleanupResourceList:
  assumes "untouched T e s" "element_type list \<noteq> T"
  shows "untouched T e (cleanupResourceList cfg list s)"
proof -
  let ?U = "element_type list"
  have clear: "untouched T s1 (set_list list [] s1)" for s1
    using assms(2)
    by (intro untouched_one_event [where evs = "[]"]) (simp_all add: resourceLists_set_list_other)
  have sweep: "untouched T s
      (foldl (\<lambda>s item. heap_destroy ?U item (item_terminate ?U item s)) (set_list list [] s1) copy)"
    if "untouched T s s1" for s1 copy
    using that clear untouched_sweep [OF assms(2)] untouched_trans by blast
  have logged: "untouched T s (log_event (LogLeaked ?U n) s)" for n
    by (intro untouched_one_event [where evs = "[LogLeaked ?U n]"]) (simp_all add: log_event_def)
  have "untouched T s (cleanupResourceList cfg list s)"
    unfolding cleanupResourceList_def getListAndClear_def Let_def
    using sweep [OF logged] sweep [OF untouched_refl] untouched_refl [of T s]
    by (simp split: prod.splits)
  with assms(1) show ?thesis by (rule untouched_trans)
qed

lemma untouched_cleanup_instances:
  assumes "untouched T e s" "FMaterialInstance \<noteq> T"
  shows "untouched T e (cleanup_instances cfg s)"
proof -
  have "untouched T s (foldl (\<lambda>s item. cleanupResourceList cfg (InstanceList (fst item)) s) s items)"
    for items
  proof (induction items arbitrary: s)
    case Nil
    show ?case by (simp add: untouched_refl)
  next
    case (Cons item items)
    have "untouched T s (cleanupResourceList cfg (InstanceList (fst item)) s)"
      using untouched_refl assms(2) by (rule untouched_cleanupResourceList [where list = "InstanceList (fst item)", simplified])
    then show ?case
      using Cons.IH by (simp, rule untouched_trans)
  qed
  then have "untouched T s (cleanup_instances cfg s)"
    by (simp add: cleanup_instances_def)
  with assms(1) show ?thesis by (rule untouched_trans)
qed

lemma untouched_watermark:
  "untouched T e (if NDEBUG cfg then e else log_event LogWatermark e)"
  using untouched_one_event [of "log_event LogWatermark e" T e "[LogWatermark]"] untouched_refl [of T e]
  by (simp add: log_event_def)

lemma untouched_shutdown_own_state:
  assumes "untouched T e s" "T = FSwapChain \<or> T = FStream"
  shows "untouched T e (shutdown_own_state cfg s)"
  unfolding shutdown_own_state_def Let_def
  using assms(2)
  by (intro untouched_destroy_material untouched_destroy untouched_destroyRenderPrimitive
            untouched_subsystem_terminate assms(1)) auto

lemma untouched_shutdown_cleanup:
  assumes "untouched T e s" "T = FSwapChain \<or> T = FStream \<or> T = FIndirectLight"
  shows "untouched T e (shutdown_cleanup cfg s)"
  unfolding shutdown_cleanup_def Let_def
  using assms(2)
  by (intro untouched_cleanupResourceList untouched_cleanup_instances untouched_destroy_material
            assms(1)) auto

lemma no_termination_in_buffers_trace:
  "Terminate T p \<notin> set (buffers_trace buffers) \<and> HeapDestroy T p \<notin> set (buffers_trace buffers)"
  by (auto simp: buffers_trace_def split: if_splits)

lemma untouched_shutdown_exit:
  assumes "UTILS_HAS_THREADING cfg \<longrightarrow> \<not> driverThreadReturned s"
  shows "\<exists>e'. shutdown_exit cfg s = Some e' \<and> untouched T s e'"
proof (cases "UTILS_HAS_THREADING cfg")
  case True
  with assms have "\<not> driverThreadReturned s" by simp
  with True obtain e' evs where "shutdown_exit cfg s = Some e'"
    "events e' = events s @ [DriverPurge, QueueFlush evs] @
       [RequestExit, WaitForCommandsReturned (mCommandBuffersToExecute (mCommandBufferQueue s) @ [evs])] @
       buffers_trace (mCommandBuffersToExecute (mCommandBufferQueue s) @ [evs]) @
       [WaitForCommandsReturned [], DriverTerminate, DriverThreadJoin] @
       [JobSystemEmancipate, MarkTerminated]"
    "resourceLists e' = resourceLists s"
    using shutdown_exit_threaded [of cfg s] by blast
  then show ?thesis
    using no_termination_in_buffers_trace [of T]
    by (auto simp: untouched_def)
next
  case False
  then obtain e' evs where "shutdown_exit cfg s = Some e'"
    "events e' = events s @ [DriverPurge, QueueFlush evs] @
       [WaitForCommandsReturned (mCommandBuffersToExecute (mCommandBufferQueue s) @ [evs])] @
       buffers_trace (mCommandBuffersToExecute (mCommandBufferQueue s) @ [evs]) @ [RequestExit] @
       [JobSystemEmancipate, MarkTerminated]"
    "resourceLists e' = resourceLists s"
    using shutdown_exit_single_threaded [of cfg s] by blast
  then show ?thesis
    using no_termination_in_buffers_trace [of T]
    by (auto simp: untouched_def)
qed

lemma shutdown_never_sweeps_swapchains_and_streams:
  assumes "T = FSwapChain \<or> T = FStream"
    and "UTILS_HAS_THREADING cfg \<longrightarrow> \<not> driverThreadReturned e"
  shows "\<exists>e'. shutdown cfg e = Some e' \<and> untouched T e e'"
proof -
  let ?E = "shutdown_cleanup cfg (shutdown_own_state cfg
              (if NDEBUG cfg then e else log_event LogWatermark e))"
  from assms(1) have "T = FSwapChain \<or> T = FStream \<or> T = FIndirectLight" by blast
  then have before: "untouched T e ?E"
    by (intro untouched_shutdown_cleanup untouched_shutdown_own_state untouched_watermark assms(1))
  obtain pre where "cleanup_effect pre e ?E"
    using cleans_before_exit by blast
  then have "driverThreadReturned ?E = driverThreadReturned e"
    by (simp add: cleanup_effect_def)
  with assms(2) have "UTILS_HAS_THREADING cfg \<longrightarrow> \<not> driverThreadReturned ?E" by simp
  then obtain e' where "shutdown_exit cfg ?E = Some e'" "untouched T ?E e'"
    using untouched_shutdown_exit by blast
  with before show ?thesis
    using untouched_trans by (auto simp: shutdown_def Let_def)
qed

text \<open>
  C4, at the failing input. An engine on which the client has created one swap chain and
  never destroyed it is shut down: the swap chain is still in its list afterwards, and it
  has been neither terminated nor freed.
\<close>

theorem C4_leaked_swapchain_survives_shutdown:
  "(case shutdown \<lparr>UTILS_HAS_THREADING = True, NDEBUG = False\<rparr> example_engine_with_swapchain of
      None \<Rightarrow> False
    | Some e' \<Rightarrow>
        resourceLists e' FSwapChain = [30] \<and>
        Terminate FSwapChain 30 \<notin> set (events e') \<and>
        HeapDestroy FSwapChain 30 \<notin> set (events e'))"
proof -
  have fields: "resourceLists example_engine_with_swapchain FSwapChain = [30]"
    "events example_engine_with_swapchain = []"
    "\<not> driverThreadReturned example_engine_with_swapchain"
    by (simp_all add: example_engine_with_swapchain_def create_object_def example_engine_def
                      rl_insert_def nullptr_def)
  obtain e' where "shutdown \<lparr>UTILS_HAS_THREADING = True, NDEBUG = False\<rparr>
        example_engine_with_swapchain = Some e'"
    and "untouched FSwapChain example_engine_with_swapchain e'"
    using shutdown_never_sweeps_swapchains_and_streams
            [of FSwapChain "\<lparr>UTILS_HAS_THREADING = True, NDEBUG = False\<rparr>"
                example_engine_with_swapchain]
          fields(3)
    by auto
  then show ?thesis
    by (auto simp: untouched_def fields)
qed

subsection \<open>The registry of engines\<close>

lemma create_threaded_failure:
  assumes "UTILS_HAS_THREADING cfg"
    and "createDriver env (if platform = nullptr then defaultPlatform env else platform) = nullptr"
  shows "\<exists>e. create cfg env platform instance obj r = Some (Inr nullptr, e, r)"
  using assms
  by (auto simp: create_def loop_startup_def Let_def log_event_def)

lemma create_single_threaded_failure:
  assumes "\<not> UTILS_HAS_THREADING cfg"
    and "createDriver env (if platform = nullptr then defaultPlatform env else platform) = nullptr"
  shows "\<exists>e r'. create cfg env platform instance obj r = Some (Inl NullDriverDereference, e, r') \<and>
           sEngines r' = (if instance \<in> set (sEngines r) then sEngines r else sEngines r @ [instance])"
  using assms
  by (auto simp: create_def create_register_def init_def Let_def lock_guard_def
                 lock_guard_release_def sEngines_insert_def)

text \<open>
  C1, at the failing input. Without threading, on a platform that cannot create the
  driver, create does not return a null handle: it has put the instance into the registry
  and is in \<^verbatim>\<open>init()\<close>, dereferencing the null driver. (With threading create returns
  null and the registry is as before: \<open>create_threaded_failure\<close>.)
\<close>

theorem C1_single_threaded_failure_registers:
  "create \<lparr>UTILS_HAS_THREADING = False, NDEBUG = True\<rparr> failing_platform nullptr 100
          constructed_engine empty_registry =
     Some (Inl NullDriverDereference,
           constructed_engine\<lparr>mPlatform := 2, mOwnPlatform := True\<rparr>,
           \<lparr>sEngines = [100], sEnginesLock = False,
            registryEvents = [RegistryLock, RegistryInsert 100, RegistryUnlock]\<rparr>)"
  by (simp add: create_def create_register_def init_def Let_def lock_guard_def
                lock_guard_release_def sEngines_insert_def failing_platform_def
                constructed_engine_def empty_registry_def nullptr_def)

text \<open>
  C7. assertValid takes the registry lock, looks the handle up under the lock, releases
  the lock, and then fails with the postcondition panic if and only if the handle is not in
  the registry; otherwise it returns. The registry holds the same engines afterwards, and
  the lock is free.
\<close>

theorem C7_assertValid:
  "(fst (assertValid h r) = Inl PostconditionPanic \<longleftrightarrow> h \<notin> set (sEngines r)) \<and>
   (fst (assertValid h r) = Inr () \<longleftrightarrow> h \<in> set (sEngines r)) \<and>
   sEngines (snd (assertValid h r)) = sEngines r \<and>
   registryEvents (snd (assertValid h r)) =
     registryEvents r @ [RegistryLock, RegistryFind h, RegistryUnlock] \<and>
   \<not> sEnginesLock (snd (assertValid h r))"
  by (simp add: assertValid_def lock_guard_def sEngines_find_def lock_guard_release_def
                ASSERT_POSTCONDITION_def Let_def)

theorem C7_assertValid_witness:
  "fst (assertValid 100 empty_registry) = Inl PostconditionPanic \<and>
   100 \<notin> set (sEngines empty_registry) \<and>
   fst (assertValid 100 (sEngines_insert 100 empty_registry)) = Inr () \<and>
   100 \<in> set (sEngines (sEngines_insert 100 empty_registry)) \<and>
   sEngines (snd (assertValid 100 (sEngines_insert 100 empty_registry))) = [100] \<and>
   registryEvents (snd (assertValid 100 empty_registry)) =
     [RegistryLock, RegistryFind 100, RegistryUnlock]"
  using C7_assertValid [of 100 empty_registry]
        C7_assertValid [of 100 "sEngines_insert 100 empty_registry"]
  by (simp add: empty_registry_def sEngines_insert_def)


subsection \<open>gc\<close>

lemma js_createJob_parent:
  "js_createJob None work js =
     (length (jobs js),
      js\<lparr>jobs := jobs js @ [\<lparr>job_parent = None, job_work = work, job_children = []\<rparr>]\<rparr>)"
  by (simp add: js_createJob_def)

lemma js_createJob_child:
  assumes "jobs js = xs @ p # cs"
  shows "js_createJob (Some (length xs)) work js =
     (Suc (length xs + length cs),
      js\<lparr>jobs := xs @ p\<lparr>job_children := job_children p @ [Suc (length xs + length cs)]\<rparr> # cs @
                   [\<lparr>job_parent = Some (length xs), job_work = work, job_children = []\<rparr>]\<rparr>)"
  by (simp add: js_createJob_def assms)

lemma js_runAndWait_family:
  assumes "jobs js = xs @ p # cs"
    and "\<forall>c \<in> set (job_children p). c \<in> fst ` set (submitted js)"
  shows "js_runAndWait (length xs) js =
     Some (js\<lparr>submitted := filter (\<lambda>(j, flags). j \<notin> set (job_children p)) (submitted js),
              executed := executed js @ map (\<lambda>j. job_work (jobs js ! j)) (job_children p) @
                          [job_work p],
              finished := finished js @ job_children p @ [length xs]\<rparr>)"
  using assms by (simp add: js_runAndWait_def Let_def)

text \<open>
  C8. Every call to gc() creates five jobs: one parent, with no work of its own, and
  under it one child for each of the renderable, light, transform and camera managers,
  whose work is that manager's gc on the engine's entity manager. Each child is submitted
  by a call of run with the flag DONT_SIGNAL, and there is no other call of run. gc()
  then waits on the parent, and returns: by then the four sweeps have been executed, each
  once (here in the order of submission), and the four children and then the parent have
  finished.
\<close>

theorem C8_gc_jobs:
  "\<exists>js'. gc em js = Some js' \<and>
     jobs js' = jobs js @
       [\<lparr>job_parent = None, job_work = NoWork,
         job_children = [length (jobs js) + 1, length (jobs js) + 2,
                         length (jobs js) + 3, length (jobs js) + 4]\<rparr>,
        \<lparr>job_parent = Some (length (jobs js)), job_work = ManagerGc FRenderableManager em,
         job_children = []\<rparr>,
        \<lparr>job_parent = Some (length (jobs js)), job_work = ManagerGc FLightManager em,
         job_children = []\<rparr>,
        \<lparr>job_parent = Some (length (jobs js)), job_work = ManagerGc FTransformManager em,
         job_children = []\<rparr>,
        \<lparr>job_parent = Some (length (jobs js)), job_work = ManagerGc FCameraManager em,
         job_children = []\<rparr>] \<and>
     run_calls js' = run_calls js @
       [(length (jobs js) + 1, DONT_SIGNAL), (length (jobs js) + 2, DONT_SIGNAL),
        (length (jobs js) + 3, DONT_SIGNAL), (length (jobs js) + 4, DONT_SIGNAL)] \<and>
     executed js' = executed js @
       [ManagerGc FRenderableManager em, ManagerGc FLightManager em,
        ManagerGc FTransformManager em, ManagerGc FCameraManager em, NoWork] \<and>
     finished js' = finished js @
       [length (jobs js) + 1, length (jobs js) + 2, length (jobs js) + 3, length (jobs js) + 4,
        length (jobs js)]"
proof -
  let ?xs = "jobs js"
  let ?n = "length ?xs"
  let ?child = "\<lambda>m. \<lparr>job_parent = Some ?n, job_work = ManagerGc m em, job_children = []\<rparr>"
  let ?parent = "\<lambda>cs. \<lparr>job_parent = None, job_work = NoWork, job_children = cs\<rparr>"
  let ?c1 = "?child FRenderableManager" and ?c2 = "?child FLightManager"
  let ?c3 = "?child FTransformManager" and ?c4 = "?child FCameraManager"
  define js1 where "js1 = js\<lparr>jobs := ?xs @ [?parent []]\<rparr>"
  define js2 where "js2 = js1\<lparr>jobs := ?xs @ ?parent [?n + 1] # [?c1]\<rparr>"
  define js3 where "js3 = js_run (?n + 1) DONT_SIGNAL js2"
  define js4 where "js4 = js3\<lparr>jobs := ?xs @ ?parent [?n + 1, ?n + 2] # [?c1, ?c2]\<rparr>"
  define js5 where "js5 = js_run (?n + 2) DONT_SIGNAL js4"
  define js6 where "js6 = js5\<lparr>jobs := ?xs @ ?parent [?n + 1, ?n + 2, ?n + 3] # [?c1, ?c2, ?c3]\<rparr>"
  define js7 where "js7 = js_run (?n + 3) DONT_SIGNAL js6"
  define js8 where "js8 = js7\<lparr>jobs := ?xs @ ?parent [?n + 1, ?n + 2, ?n + 3, ?n + 4] #
                                    [?c1, ?c2, ?c3, ?c4]\<rparr>"
  define js9 where "js9 = js_run (?n + 4) DONT_SIGNAL js8"
  have s1: "js_createJob None NoWork js = (?n, js1)"
    by (simp add: js_createJob_parent js1_def)
  have "jobs js1 = ?xs @ ?parent [] # []"
    by (simp add: js1_def)
  from js_createJob_child [OF this, of "ManagerGc FRenderableManager em"]
  have s2: "js_createJob (Some ?n) (ManagerGc FRenderableManager em) js1 = (?n + 1, js2)"
    by (simp add: js2_def)
  have "jobs js3 = ?xs @ ?parent [?n + 1] # [?c1]"
    by (simp add: js3_def js2_def js_run_def)
  from js_createJob_child [OF this, of "ManagerGc FLightManager em"]
  have s4: "js_createJob (Some ?n) (ManagerGc FLightManager em) js3 = (?n + 2, js4)"
    by (simp add: js4_def)
  have "jobs js5 = ?xs @ ?parent [?n + 1, ?n + 2] # [?c1, ?c2]"
    by (simp add: js5_def js4_def js_run_def)
  from js_createJob_child [OF this, of "ManagerGc FTransformManager em"]
  have s6: "js_createJob (Some ?n) (ManagerGc FTransformManager em) js5 = (?n + 3, js6)"
    by (simp add: js6_def)
  have "jobs js7 = ?xs @ ?parent [?n + 1, ?n + 2, ?n + 3] # [?c1, ?c2, ?c3]"
    by (simp add: js7_def js6_def js_run_def)
  from js_createJob_child [OF this, of "ManagerGc FCameraManager em"]
  have s8: "js_createJob (Some ?n) (ManagerGc FCameraManager em) js7 = (?n + 4, js8)"
    by (simp add: js8_def)
  have gc_eq: "gc em js = js_runAndWait ?n js9"
    unfolding gc_def Let_def s1 prod.case s2 js3_def [symmetric] s4 js5_def [symmetric]
              s6 js7_def [symmetric] s8 js9_def [symmetric]
    by (rule refl)
  have jobs9: "jobs js9 = ?xs @ ?parent [?n + 1, ?n + 2, ?n + 3, ?n + 4] # [?c1, ?c2, ?c3, ?c4]"
    by (simp add: js9_def js8_def js_run_def)
  have calls9: "run_calls js9 = run_calls js @
       [(?n + 1, DONT_SIGNAL), (?n + 2, DONT_SIGNAL), (?n + 3, DONT_SIGNAL), (?n + 4, DONT_SIGNAL)]"
    and sub9: "submitted js9 = submitted js @
       [(?n + 1, DONT_SIGNAL), (?n + 2, DONT_SIGNAL), (?n + 3, DONT_SIGNAL), (?n + 4, DONT_SIGNAL)]"
    and ex9: "executed js9 = executed js" and fin9: "finished js9 = finished js"
    by (simp_all add: js9_def js8_def js7_def js6_def js5_def js4_def js3_def js2_def js1_def
                      js_run_def)
  have all_submitted: "\<forall>c \<in> set (job_children (?parent [?n + 1, ?n + 2, ?n + 3, ?n + 4])).
      c \<in> fst ` set (submitted js9)"
    by (simp add: sub9)
  note wait = js_runAndWait_family [OF jobs9 all_submitted]
  have nth1: "(?xs @ ys) ! Suc ?n = ys ! 1" and nth2: "(?xs @ ys) ! Suc (Suc ?n) = ys ! 2" for ys
    using nth_append_length_plus [of ?xs ys 1] nth_append_length_plus [of ?xs ys 2]
    by simp_all
  show ?thesis
    unfolding gc_eq wait
    by (simp add: jobs9 calls9 ex9 fin9 nth1 nth2)
qed

theorem C8_gc_jobs_witness:
  "\<exists>js'. gc 77 idle_job_system = Some js' \<and>
     jobs js' =
       [\<lparr>job_parent = None, job_work = NoWork, job_children = [1, 2, 3, 4]\<rparr>,
        \<lparr>job_parent = Some 0, job_work = ManagerGc FRenderableManager 77, job_children = []\<rparr>,
        \<lparr>job_parent = Some 0, job_work = ManagerGc FLightManager 77, job_children = []\<rparr>,
        \<lparr>job_parent = Some 0, job_work = ManagerGc FTransformManager 77, job_children = []\<rparr>,
        \<lparr>job_parent = Some 0, job_work = ManagerGc FCameraManager 77, job_children = []\<rparr>] \<and>
     run_calls js' = [(1, DONT_SIGNAL), (2, DONT_SIGNAL), (3, DONT_SIGNAL), (4, DONT_SIGNAL)] \<and>
     executed js' =
       [ManagerGc FRenderableManager 77, ManagerGc FLightManager 77,
        ManagerGc FTransformManager 77, ManagerGc FCameraManager 77, NoWork] \<and>
     finished js' = [1, 2, 3, 4, 0]"
  using C8_gc_jobs [of 77 idle_job_system]
  by (simp add: idle_job_system_def numeral_2_eq_2)

subsection \<open>shutdown: every swept resource is terminated and freed once\<close>

lemma terminated_simps [simp]:
  "terminated T [] = []"
  "terminated T (ev # evs) = terminated_of T ev @ terminated T evs"
  "terminated T (xs @ ys) = terminated T xs @ terminated T ys"
  by (simp_all add: terminated_def)

lemma freed_simps [simp]:
  "freed T [] = []"
  "freed T (ev # evs) = freed_of T ev @ freed T evs"
  "freed T (xs @ ys) = freed T xs @ freed T ys"
  by (simp_all add: freed_def)

lemma accounted_refl: "distinct (resourceLists e T) \<Longrightarrow> accounted T e e"
  by (simp add: accounted_def)

lemma accounted_trans:
  assumes "accounted T e e1" "accounted T e1 e2"
  shows "accounted T e e2"
proof -
  from assms(1) obtain evs1 where 1: "events e1 = events e @ evs1"
    "\<forall>p. count_list (resourceLists e1 T) p + count_list (terminated T evs1) p =
          count_list (resourceLists e T) p"
    "\<forall>p. count_list (resourceLists e1 T) p + count_list (freed T evs1) p =
          count_list (resourceLists e T) p"
    by (auto simp: accounted_def)
  from assms(2) obtain evs2 where 2: "distinct (resourceLists e2 T)" "events e2 = events e1 @ evs2"
    "\<forall>p. count_list (resourceLists e2 T) p + count_list (terminated T evs2) p =
          count_list (resourceLists e1 T) p"
    "\<forall>p. count_list (resourceLists e2 T) p + count_list (freed T evs2) p =
          count_list (resourceLists e1 T) p"
    by (auto simp: accounted_def)
  have "events e2 = events e @ (evs1 @ evs2)"
    using 1(1) 2(2) by simp
  moreover have "\<forall>p. count_list (resourceLists e2 T) p + count_list (terminated T (evs1 @ evs2)) p =
          count_list (resourceLists e T) p"
    using 1(2) 2(3) by (simp add: add.assoc [symmetric]) (metis add.commute add.left_commute)
  moreover have "\<forall>p. count_list (resourceLists e2 T) p + count_list (freed T (evs1 @ evs2)) p =
          count_list (resourceLists e T) p"
    using 1(3) 2(4) by (simp add: add.assoc [symmetric]) (metis add.commute add.left_commute)
  ultimately show ?thesis
    using 2(1) unfolding accounted_def by blast
qed

lemma accounted_same_list:
  assumes "distinct (resourceLists s T)" "resourceLists s' T = resourceLists s T"
    "events s' = events s @ evs" "terminated T evs = []" "freed T evs = []"
  shows "accounted T s s'"
  using assms unfolding accounted_def by auto

lemma accounted_step:
  assumes "accounted T e s" "distinct (resourceLists s T) \<Longrightarrow> accounted T s s'"
  shows "accounted T e s'"
proof -
  from assms(1) have "distinct (resourceLists s T)" by (simp add: accounted_def)
  then have "accounted T s s'" by (rule assms(2))
  with assms(1) show ?thesis by (rule accounted_trans)
qed

lemma count_list_removeAll:
  "count_list (removeAll p l) q = (if q = p then 0 else count_list l q)"
  by (induction l) auto

lemma count_list_distinct_member: "distinct l \<Longrightarrow> p \<in> set l \<Longrightarrow> count_list l p = 1"
  by (induction l) auto

lemma get_list_events_update [simp]: "get_list list (s\<lparr>events := x\<rparr>) = get_list list s"
  by (cases list) simp_all

lemma sweep_fold:
  "foldl (\<lambda>s item. heap_destroy U item (item_terminate U item s)) s copy =
     s\<lparr>mCommandBufferQueue := (mCommandBufferQueue s)
          \<lparr>circularBuffer := circularBuffer (mCommandBufferQueue s) @ map (TerminateCommands U) copy\<rparr>,
       events := events s @ concat (map (\<lambda>p. [Terminate U p, HeapDestroy U p]) copy)\<rparr>"
  by (induction copy arbitrary: s)
     (simp_all add: heap_destroy_def item_terminate_def record_command_def log_event_def)

lemma terminated_sweep:
  "terminated T (concat (map (\<lambda>p. [Terminate U p, HeapDestroy U p]) copy)) =
     (if U = T then copy else [])"
  by (induction copy) auto

lemma freed_sweep:
  "freed T (concat (map (\<lambda>p. [Terminate U p, HeapDestroy U p]) copy)) =
     (if U = T then copy else [])"
  by (induction copy) auto

lemma accounted_subsystem_terminate:
  "accounted T e s \<Longrightarrow> accounted T e (subsystem_terminate x s)"
  by (erule accounted_step, rule accounted_same_list [where evs = "[SubsystemTerminate x]"])
     (simp_all add: subsystem_terminate_def record_command_def log_event_def)

lemma accounted_destroyRenderPrimitive:
  "accounted T e s \<Longrightarrow> accounted T e (driverApi_destroyRenderPrimitive h s)"
  by (erule accounted_step,
      rule accounted_same_list [where evs = "[DriverApiCall (DestroyRenderPrimitive h)]"])
     (simp_all add: driverApi_destroyRenderPrimitive_def record_command_def log_event_def)

lemma accounted_watermark:
  assumes "distinct (resourceLists e T)"
  shows "accounted T e (if NDEBUG cfg then e else log_event LogWatermark e)"
  using accounted_same_list [OF assms, of "log_event LogWatermark e" "[LogWatermark]"]
        accounted_refl [OF assms]
  by (simp add: log_event_def)

lemma accounted_terminateAndDestroy:
  assumes "accounted T e s" "T \<noteq> FMaterialInstance"
  shows "accounted T e (terminateAndDestroy cfg p list s)"
proof (rule accounted_step [OF assms(1)])
  let ?U = "element_type list"
  let ?s' = "terminateAndDestroy cfg p list s"
  assume d: "distinct (resourceLists s T)"
  show "accounted T s ?s'"
  proof (cases "p \<noteq> nullptr \<and> p \<in> set (get_list list s)")
    case True
    then have ev: "events ?s' = events s @ [ListRemove ?U p, Terminate ?U p, HeapDestroy ?U p]"
      and gl: "get_list list ?s' = removeAll p (get_list list s)"
      by (simp_all add: terminateAndDestroy_present)
    show ?thesis
    proof (cases "list = MemberList T")
      case same: True
      with gl have l: "resourceLists ?s' T = removeAll p (resourceLists s T)" by simp
      from True same have mem: "p \<in> set (resourceLists s T)" by simp
      have "distinct (resourceLists ?s' T)"
        using d by (simp add: l distinct_removeAll)
      moreover from same have U: "?U = T" by simp
      moreover have "\<forall>q. count_list (resourceLists ?s' T) q +
            count_list (terminated T [ListRemove ?U p, Terminate ?U p, HeapDestroy ?U p]) q =
          count_list (resourceLists s T) q"
        using count_list_distinct_member [OF d mem]
        by (simp add: l U count_list_removeAll)
      moreover have "\<forall>q. count_list (resourceLists ?s' T) q +
            count_list (freed T [ListRemove ?U p, Terminate ?U p, HeapDestroy ?U p]) q =
          count_list (resourceLists s T) q"
        using count_list_distinct_member [OF d mem]
        by (simp add: l U count_list_removeAll)
      ultimately show ?thesis
        using ev unfolding accounted_def by blast
    next
      case False
      with assms(2) have other: "?U \<noteq> T" by (cases list) auto
      have "resourceLists ?s' T = resourceLists s T"
        using True other
        by (simp add: terminateAndDestroy_def rl_remove_def heap_destroy_def item_terminate_def
                      log_event_def record_command_def resourceLists_set_list_other)
      with d show ?thesis
        using ev other by (intro accounted_same_list) auto
    qed
  next
    case False
    then have "?s' = s \<or> ?s' = log_event (LogObjectDoesntExist ?U p) s"
      by (auto simp: terminateAndDestroy_def rl_remove_def)
    then show ?thesis
    proof
      assume "?s' = s"
      with d show ?thesis by (simp add: accounted_refl)
    next
      assume "?s' = log_event (LogObjectDoesntExist ?U p) s"
      with d show ?thesis
        by (intro accounted_same_list [where evs = "[LogObjectDoesntExist ?U p]"])
           (simp_all add: log_event_def)
    qed
  qed
qed

lemma accounted_destroy:
  "accounted T e s \<Longrightarrow> T \<noteq> FMaterialInstance \<Longrightarrow> accounted T e (destroy cfg U p s)"
  unfolding destroy_def by (rule accounted_terminateAndDestroy)

lemma accounted_destroy_material:
  assumes "accounted T e s" "T \<noteq> FMaterialInstance"
  shows "accounted T e (destroy_material cfg p s)"
proof -
  have refused: "accounted T e (log_event (PanicLogPrecondition p n) s)" for n
    by (rule accounted_step [OF assms(1)],
        rule accounted_same_list [where evs = "[PanicLogPrecondition p n]"])
       (simp_all add: log_event_def)
  show ?thesis
    unfolding destroy_material_def ASSERT_PRECONDITION_NON_FATAL_def
    using accounted_terminateAndDestroy [OF assms] refused assms(1)
    by (simp split: option.splits)
qed

lemma accounted_cleanupResourceList:
  assumes "accounted T e s" "T \<noteq> FMaterialInstance"
  shows "accounted T e (cleanupResourceList cfg list s)"
proof (rule accounted_step [OF assms(1)])
  let ?U = "element_type list"
  let ?s' = "cleanupResourceList cfg list s"
  assume d: "distinct (resourceLists s T)"
  show "accounted T s ?s'"
  proof (cases "get_list list s = []")
    case True
    with d show ?thesis
      by (simp add: cleanupResourceList_def rl_empty_def accounted_refl)
  next
    case False
    let ?log = "if NDEBUG cfg then [] else [LogLeaked ?U (length (get_list list s))]"
    let ?sweep = "concat (map (\<lambda>p. [Terminate ?U p, HeapDestroy ?U p]) (get_list list s))"
    have ev: "events ?s' = events s @ (?log @ ?sweep)"
      using False
      by (simp add: cleanupResourceList_def rl_empty_def rl_size_def getListAndClear_def Let_def
                    sweep_fold log_event_def)
    have tl: "terminated T ?log = []" and fl: "freed T ?log = []"
      by simp_all
    show ?thesis
    proof (cases "list = MemberList T")
      case same: True
      then have l: "resourceLists ?s' T = []"
        using False
        by (simp add: cleanupResourceList_def rl_empty_def getListAndClear_def Let_def
                      sweep_fold log_event_def)
      have "terminated T (?log @ ?sweep) = resourceLists s T"
        and "freed T (?log @ ?sweep) = resourceLists s T"
        using same by (simp_all add: terminated_sweep freed_sweep tl fl del: terminated_simps(2) freed_simps(2))
      then show ?thesis
        using ev l unfolding accounted_def by auto
    next
      case other: False
      with assms(2) have ne: "?U \<noteq> T" by (cases list) auto
      have l: "resourceLists ?s' T = resourceLists s T"
        using False ne
        by (simp add: cleanupResourceList_def rl_empty_def getListAndClear_def Let_def
                      sweep_fold log_event_def resourceLists_set_list_other)
      have "terminated T (?log @ ?sweep) = []" and "freed T (?log @ ?sweep) = []"
        using ne by (simp_all add: terminated_sweep freed_sweep tl fl del: terminated_simps(2) freed_simps(2))
      with d l ev show ?thesis
        by (intro accounted_same_list)
    qed
  qed
qed

lemma accounted_cleanup_instances:
  assumes "accounted T e s" "T \<noteq> FMaterialInstance"
  shows "accounted T e (cleanup_instances cfg s)"
proof -
  have "accounted T e (foldl (\<lambda>s item. cleanupResourceList cfg (InstanceList (fst item)) s) s items)"
    if "accounted T e s" for items :: "(ptr \<times> resource_list) list" and s
    using that
  proof (induction items arbitrary: s)
    case Nil
    then show ?case by simp
  next
    case (Cons item items)
    from Cons.prems assms(2)
    have "accounted T e (cleanupResourceList cfg (InstanceList (fst item)) s)"
      by (rule accounted_cleanupResourceList)
    then show ?case using Cons.IH by simp
  qed
  with assms(1) show ?thesis by (simp add: cleanup_instances_def)
qed

lemma accounted_shutdown_own_state:
  "accounted T e s \<Longrightarrow> T \<noteq> FMaterialInstance \<Longrightarrow> accounted T e (shutdown_own_state cfg s)"
  unfolding shutdown_own_state_def Let_def
  by (intro accounted_destroy_material accounted_destroy accounted_destroyRenderPrimitive
            accounted_subsystem_terminate)

lemma accounted_shutdown_cleanup:
  "accounted T e s \<Longrightarrow> T \<noteq> FMaterialInstance \<Longrightarrow> accounted T e (shutdown_cleanup cfg s)"
  unfolding shutdown_cleanup_def Let_def
  by (intro accounted_cleanupResourceList accounted_cleanup_instances accounted_destroy_material)

lemma resourceLists_cleanupResourceList:
  "resourceLists (cleanupResourceList cfg list s) T =
     (if list = MemberList T then [] else resourceLists s T)"
proof (cases "get_list list s = []")
  case True
  then show ?thesis
    by (auto simp: cleanupResourceList_def rl_empty_def)
next
  case False
  then show ?thesis
    by (cases list)
       (auto simp: cleanupResourceList_def rl_empty_def getListAndClear_def Let_def sweep_fold
                   log_event_def)
qed

lemma resourceLists_cleanup_instances:
  "resourceLists (cleanup_instances cfg s) T = resourceLists s T"
proof -
  have "resourceLists (foldl (\<lambda>s item. cleanupResourceList cfg (InstanceList (fst item)) s) s items) T =
        resourceLists s T" for items :: "(ptr \<times> resource_list) list"
    by (induction items arbitrary: s) (simp_all add: resourceLists_cleanupResourceList)
  then show ?thesis by (simp add: cleanup_instances_def)
qed

lemma resourceLists_destroy_material:
  "T \<noteq> FMaterial \<Longrightarrow> resourceLists (destroy_material cfg p s) T = resourceLists s T"
  using untouched_destroy_material [where e = s and s = s and T = T and cfg = cfg and p = p,
          OF untouched_refl]
  by (auto simp: untouched_def)

lemma shutdown_cleanup_swept:
  assumes "T \<in> {FRenderer, FView, FScene, FSkybox, FIndexBuffer, FVertexBuffer, FTexture,
                 FRenderTarget, FMaterial, FFence}"
  shows "resourceLists (shutdown_cleanup cfg s) T = []"
  using assms unfolding shutdown_cleanup_def Let_def
  by (auto simp: resourceLists_cleanupResourceList resourceLists_cleanup_instances
                 resourceLists_destroy_material)

lemma no_termination_events_in_buffers_trace:
  "terminated T (buffers_trace buffers) = [] \<and> freed T (buffers_trace buffers) = []"
  by (induction buffers) (simp_all add: buffers_trace_def)

lemma shutdown_exit_adds_no_termination:
  assumes "UTILS_HAS_THREADING cfg \<longrightarrow> \<not> driverThreadReturned s"
  shows "\<exists>e' evs. shutdown_exit cfg s = Some e' \<and> events e' = events s @ evs \<and>
           (\<forall>T. terminated T evs = [] \<and> freed T evs = []) \<and>
           resourceLists e' = resourceLists s \<and> mMaterialInstances e' = mMaterialInstances s"
proof (cases "UTILS_HAS_THREADING cfg")
  case True
  with assms have "\<not> driverThreadReturned s" by simp
  with True obtain e' item where "shutdown_exit cfg s = Some e'"
    "events e' = events s @ [DriverPurge, QueueFlush item] @
       [RequestExit, WaitForCommandsReturned (mCommandBuffersToExecute (mCommandBufferQueue s) @ [item])] @
       buffers_trace (mCommandBuffersToExecute (mCommandBufferQueue s) @ [item]) @
       [WaitForCommandsReturned [], DriverTerminate, DriverThreadJoin] @
       [JobSystemEmancipate, MarkTerminated]"
    "resourceLists e' = resourceLists s" "mMaterialInstances e' = mMaterialInstances s"
    using shutdown_exit_threaded [of cfg s] by blast
  then show ?thesis
    using no_termination_events_in_buffers_trace
    by (intro exI conjI) (assumption, assumption, simp_all)
next
  case False
  then obtain e' item where "shutdown_exit cfg s = Some e'"
    "events e' = events s @ [DriverPurge, QueueFlush item] @
       [WaitForCommandsReturned (mCommandBuffersToExecute (mCommandBufferQueue s) @ [item])] @
       buffers_trace (mCommandBuffersToExecute (mCommandBufferQueue s) @ [item]) @ [RequestExit] @
       [JobSystemEmancipate, MarkTerminated]"
    "resourceLists e' = resourceLists s" "mMaterialInstances e' = mMaterialInstances s"
    using shutdown_exit_single_threaded [of cfg s] by blast
  then show ?thesis
    using no_termination_events_in_buffers_trace
    by (intro exI conjI) (assumption, assumption, simp_all)
qed

lemma shutdown_sweeps_once:
  assumes swept: "T \<in> {FRenderer, FView, FScene, FSkybox, FIndexBuffer, FVertexBuffer, FTexture,
                        FRenderTarget, FMaterial, FFence}"
    and d: "distinct (resourceLists e T)"
    and thread: "UTILS_HAS_THREADING cfg \<longrightarrow> \<not> driverThreadReturned e"
  shows "\<exists>e' evs. shutdown cfg e = Some e' \<and> events e' = events e @ evs \<and>
           resourceLists e' T = [] \<and>
           (\<forall>p. count_list (terminated T evs) p = (if p \<in> set (resourceLists e T) then 1 else 0)) \<and>
           (\<forall>p. count_list (freed T evs) p = (if p \<in> set (resourceLists e T) then 1 else 0))"
proof -
  let ?E = "shutdown_cleanup cfg (shutdown_own_state cfg
              (if NDEBUG cfg then e else log_event LogWatermark e))"
  from swept have T: "T \<noteq> FMaterialInstance" by auto
  have "accounted T e ?E"
    by (intro accounted_shutdown_cleanup accounted_shutdown_own_state accounted_watermark d T)
  moreover have empty: "resourceLists ?E T = []"
    using swept by (rule shutdown_cleanup_swept)
  ultimately obtain pre where pre: "events ?E = events e @ pre"
    "\<forall>p. count_list (terminated T pre) p = count_list (resourceLists e T) p"
    "\<forall>p. count_list (freed T pre) p = count_list (resourceLists e T) p"
    by (auto simp: accounted_def)
  obtain sweep where "cleanup_effect sweep e ?E"
    using cleans_before_exit by blast
  then have "driverThreadReturned ?E = driverThreadReturned e"
    by (simp add: cleanup_effect_def)
  with thread have "UTILS_HAS_THREADING cfg \<longrightarrow> \<not> driverThreadReturned ?E" by simp
  then obtain e' post where post: "shutdown_exit cfg ?E = Some e'" "events e' = events ?E @ post"
    "\<forall>T. terminated T post = [] \<and> freed T post = []" "resourceLists e' = resourceLists ?E"
    using shutdown_exit_adds_no_termination by blast
  have once: "count_list (resourceLists e T) p = (if p \<in> set (resourceLists e T) then 1 else 0)" for p
    using d count_list_distinct_member [of "resourceLists e T" p] by simp
  have "shutdown cfg e = Some e'"
    using post(1) by (simp add: shutdown_def Let_def)
  moreover have "events e' = events e @ (pre @ post)"
    using pre(1) post(2) by simp
  moreover have "resourceLists e' T = []"
    using post(4) empty by simp
  moreover have "\<forall>p. count_list (terminated T (pre @ post)) p =
      (if p \<in> set (resourceLists e T) then 1 else 0)"
    using pre(2) post(3) once by simp
  moreover have "\<forall>p. count_list (freed T (pre @ post)) p =
      (if p \<in> set (resourceLists e T) then 1 else 0)"
    using pre(3) post(3) once by simp
  ultimately show ?thesis by blast
qed

subsection \<open>shutdown: every material instance is terminated and freed once\<close>

lemma instances_accounted_refl: "instances_accounted e e"
  by (simp add: instances_accounted_def)

lemma instances_accounted_trans:
  assumes "instances_accounted e e1" "instances_accounted e1 e2"
  shows "instances_accounted e e2"
proof -
  from assms(1) obtain evs1 where 1: "map fst (mMaterialInstances e1) = map fst (mMaterialInstances e)"
    "events e1 = events e @ evs1"
    "\<forall>p. count_list (all_instances e1) p + count_list (terminated FMaterialInstance evs1) p =
          count_list (all_instances e) p"
    "\<forall>p. count_list (all_instances e1) p + count_list (freed FMaterialInstance evs1) p =
          count_list (all_instances e) p"
    by (auto simp: instances_accounted_def)
  from assms(2) obtain evs2 where 2: "map fst (mMaterialInstances e2) = map fst (mMaterialInstances e1)"
    "events e2 = events e1 @ evs2"
    "\<forall>p. count_list (all_instances e2) p + count_list (terminated FMaterialInstance evs2) p =
          count_list (all_instances e1) p"
    "\<forall>p. count_list (all_instances e2) p + count_list (freed FMaterialInstance evs2) p =
          count_list (all_instances e1) p"
    by (auto simp: instances_accounted_def)
  have "events e2 = events e @ (evs1 @ evs2)"
    using 1(2) 2(2) by simp
  moreover have "\<forall>p. count_list (all_instances e2) p +
        count_list (terminated FMaterialInstance (evs1 @ evs2)) p = count_list (all_instances e) p"
    using 1(3) 2(3) by (simp add: add.assoc [symmetric]) (metis add.commute add.left_commute)
  moreover have "\<forall>p. count_list (all_instances e2) p +
        count_list (freed FMaterialInstance (evs1 @ evs2)) p = count_list (all_instances e) p"
    using 1(4) 2(4) by (simp add: add.assoc [symmetric]) (metis add.commute add.left_commute)
  ultimately show ?thesis
    using 1(1) 2(1) unfolding instances_accounted_def by (metis (no_types, lifting))
qed

lemma instances_kept:
  assumes "mMaterialInstances s' = mMaterialInstances s" "events s' = events s @ evs"
    "terminated FMaterialInstance evs = []" "freed FMaterialInstance evs = []"
  shows "instances_accounted s s'"
  using assms unfolding instances_accounted_def all_instances_def by auto

lemma instances_untouched:
  assumes "mMaterialInstances s' = mMaterialInstances s" "untouched FMaterialInstance s s'"
  shows "instances_accounted s s'"
proof -
  from assms(2) obtain evs where ev: "events s' = events s @ evs"
    and none: "\<forall>p. Terminate FMaterialInstance p \<notin> set evs \<and> HeapDestroy FMaterialInstance p \<notin> set evs"
    by (auto simp: untouched_def)
  have "terminated FMaterialInstance evs = [] \<and> freed FMaterialInstance evs = []"
    using none
  proof (induction evs)
    case Nil
    show ?case by simp
  next
    case (Cons ev evs)
    then show ?case by (cases ev) auto
  qed
  then have "terminated FMaterialInstance evs = []" "freed FMaterialInstance evs = []"
    by simp_all
  with assms(1) ev show ?thesis by (rule instances_kept)
qed

lemma mMaterialInstances_set_member_list [simp]:
  "mMaterialInstances (set_list (MemberList U) l s) = mMaterialInstances s"
  by simp

lemma mMaterialInstances_terminateAndDestroy:
  "mMaterialInstances (terminateAndDestroy cfg p (MemberList U) s) = mMaterialInstances s"
  by (simp add: terminateAndDestroy_def rl_remove_def heap_destroy_def item_terminate_def
                log_event_def record_command_def split: bool.splits)

lemma mMaterialInstances_destroy_material:
  "mMaterialInstances (destroy_material cfg p s) = mMaterialInstances s"
  by (simp add: destroy_material_def ASSERT_PRECONDITION_NON_FATAL_def log_event_def
                mMaterialInstances_terminateAndDestroy split: option.splits)

lemma mMaterialInstances_cleanup_member:
  "mMaterialInstances (cleanupResourceList cfg (MemberList U) s) = mMaterialInstances s"
  by (simp add: cleanupResourceList_def getListAndClear_def Let_def sweep_fold log_event_def)

lemma mMaterialInstances_shutdown_own_state:
  "mMaterialInstances (shutdown_own_state cfg s) = mMaterialInstances s"
  by (simp add: shutdown_own_state_def Let_def mMaterialInstances_destroy_material destroy_def
                mMaterialInstances_terminateAndDestroy driverApi_destroyRenderPrimitive_def
                subsystem_terminate_def record_command_def log_event_def)

lemma update_absent_key:
  "m \<notin> fst ` set xs \<Longrightarrow> map (\<lambda>(k, v). if k = m then (k, l) else (k, v)) xs = xs"
  by (induction xs) auto

lemma clear_empty_entry:
  assumes "distinct (map fst xs)" "map_of xs m = None \<or> map_of xs m = Some []"
  shows "map (\<lambda>(k, v). if k = m then (k, []) else (k, v)) xs = xs"
  using assms
proof (induction xs)
  case Nil
  show ?case by simp
next
  case (Cons x xs)
  obtain k v where x: "x = (k, v)" by (cases x)
  show ?case
  proof (cases "k = m")
    case True
    with Cons.prems x have "v = []" "m \<notin> fst ` set xs" by auto
    with True x show ?thesis by (simp add: update_absent_key)
  next
    case False
    with Cons x show ?thesis by simp
  qed
qed

lemma count_cleared_entry:
  assumes "distinct (map fst xs)"
  shows "count_list (concat (map snd (map (\<lambda>(k, v). if k = m then (k, []) else (k, v)) xs))) p +
         count_list (case map_of xs m of Some l \<Rightarrow> l | None \<Rightarrow> []) p =
         count_list (concat (map snd xs)) p"
  using assms
proof (induction xs)
  case Nil
  show ?case by simp
next
  case (Cons x xs)
  obtain k v where x: "x = (k, v)" by (cases x)
  show ?case
  proof (cases "k = m")
    case True
    with Cons.prems x have "m \<notin> fst ` set xs" by auto
    with True x show ?thesis by (simp add: update_absent_key)
  next
    case False
    with Cons x show ?thesis by simp
  qed
qed

lemma instances_cleanup_one:
  assumes "distinct (map fst (mMaterialInstances s))"
  shows "mMaterialInstances (cleanupResourceList cfg (InstanceList m) s) =
           map (\<lambda>(k, v). if k = m then (k, []) else (k, v)) (mMaterialInstances s)"
    and "instances_accounted s (cleanupResourceList cfg (InstanceList m) s)"
proof -
  let ?xs = "mMaterialInstances s"
  let ?l = "get_list (InstanceList m) s"
  let ?s' = "cleanupResourceList cfg (InstanceList m) s"
  let ?log = "if ?l = [] \<or> NDEBUG cfg then [] else [LogLeaked FMaterialInstance (length ?l)]"
  let ?sweep = "concat (map (\<lambda>p. [Terminate FMaterialInstance p, HeapDestroy FMaterialInstance p]) ?l)"
  have cleared: "mMaterialInstances ?s' = map (\<lambda>(k, v). if k = m then (k, []) else (k, v)) ?xs"
  proof (cases "?l = []")
    case True
    then have "map_of ?xs m = None \<or> map_of ?xs m = Some []"
      by (auto split: option.splits)
    with assms have "map (\<lambda>(k, v). if k = m then (k, []) else (k, v)) ?xs = ?xs"
      by (rule clear_empty_entry)
    with True show ?thesis
      by (simp add: cleanupResourceList_def rl_empty_def)
  next
    case False
    then show ?thesis
      by (simp add: cleanupResourceList_def rl_empty_def getListAndClear_def Let_def sweep_fold
                    log_event_def)
  qed
  then show "mMaterialInstances ?s' = map (\<lambda>(k, v). if k = m then (k, []) else (k, v)) ?xs" .
  have ev: "events ?s' = events s @ (?log @ ?sweep)"
    by (simp add: cleanupResourceList_def rl_empty_def rl_size_def getListAndClear_def Let_def
                  sweep_fold log_event_def)
  have keys: "map fst (mMaterialInstances ?s') = map fst ?xs"
    unfolding cleared by (induction ?xs) auto
  have "terminated FMaterialInstance ?log = []" "freed FMaterialInstance ?log = []"
    by simp_all
  then have tl: "terminated FMaterialInstance (?log @ ?sweep) = ?l"
    and fl: "freed FMaterialInstance (?log @ ?sweep) = ?l"
    by (simp_all add: terminated_sweep freed_sweep)
  have count: "count_list (all_instances ?s') p + count_list ?l p = count_list (all_instances s) p" for p
    using count_cleared_entry [OF assms, of m p]
    by (simp add: all_instances_def cleared)
  show "instances_accounted s ?s'"
    unfolding instances_accounted_def
    using keys ev tl fl count by metis
qed

lemma instances_cleanup_fold:
  assumes "distinct (map fst (mMaterialInstances s))"
  shows "mMaterialInstances (foldl (\<lambda>s item. cleanupResourceList cfg (InstanceList (fst item)) s) s items) =
           map (\<lambda>(k, v). if k \<in> fst ` set items then (k, []) else (k, v)) (mMaterialInstances s) \<and>
         instances_accounted s
           (foldl (\<lambda>s item. cleanupResourceList cfg (InstanceList (fst item)) s) s items)"
  using assms
proof (induction items arbitrary: s)
  case Nil
  have "map (\<lambda>(k, v). (k, v)) (mMaterialInstances s) = mMaterialInstances s"
    by (induction "mMaterialInstances s") auto
  then show ?case by (simp add: instances_accounted_refl)
next
  case (Cons item items)
  let ?s1 = "cleanupResourceList cfg (InstanceList (fst item)) s"
  let ?f = "\<lambda>s item. cleanupResourceList cfg (InstanceList (fst item)) s"
  from Cons.prems have one: "mMaterialInstances ?s1 =
      map (\<lambda>(k, v). if k = fst item then (k, []) else (k, v)) (mMaterialInstances s)"
    and acc1: "instances_accounted s ?s1"
    by (rule instances_cleanup_one)+
  from acc1 Cons.prems have "distinct (map fst (mMaterialInstances ?s1))"
    by (simp add: instances_accounted_def)
  then have rest: "mMaterialInstances (foldl ?f ?s1 items) =
      map (\<lambda>(k, v). if k \<in> fst ` set items then (k, []) else (k, v)) (mMaterialInstances ?s1)"
    and acc2: "instances_accounted ?s1 (foldl ?f ?s1 items)"
    using Cons.IH by blast+
  have "mMaterialInstances (foldl ?f ?s1 items) =
      map (\<lambda>(k, v). if k \<in> fst ` set (item # items) then (k, []) else (k, v)) (mMaterialInstances s)"
    unfolding rest one by (induction "mMaterialInstances s") auto
  moreover have "instances_accounted s (foldl ?f ?s1 items)"
    using acc1 acc2 by (rule instances_accounted_trans)
  ultimately show ?case by simp
qed

lemma instances_cleanup_instances:
  assumes "distinct (map fst (mMaterialInstances s))"
  shows "all_instances (cleanup_instances cfg s) = []"
    and "instances_accounted s (cleanup_instances cfg s)"
proof -
  from instances_cleanup_fold [OF assms, of cfg "mMaterialInstances s"]
  have m: "mMaterialInstances (cleanup_instances cfg s) =
      map (\<lambda>(k, v). if k \<in> fst ` set (mMaterialInstances s) then (k, []) else (k, v))
          (mMaterialInstances s)"
    and acc: "instances_accounted s (cleanup_instances cfg s)"
    by (simp_all add: cleanup_instances_def)
  have h: "concat (map snd (map (\<lambda>(k, v). if k \<in> fst ` set xs then (k, []) else (k, v)) ys)) = []"
    if "set ys \<subseteq> set xs" for xs ys :: "(ptr \<times> resource_list) list"
    using that
  proof (induction ys)
    case Nil
    show ?case by simp
  next
    case (Cons y ys)
    obtain k v where y: "y = (k, v)" by (cases y)
    with Cons.prems have "(k, v) \<in> set xs" by simp
    then have "k \<in> fst ` set xs" by force
    with Cons y show ?case by simp
  qed
  show "all_instances (cleanup_instances cfg s) = []"
    unfolding all_instances_def m by (rule h) simp
  from acc show "instances_accounted s (cleanup_instances cfg s)" .
qed

lemma instances_shutdown_own_state:
  "instances_accounted s (shutdown_own_state cfg s)"
proof (rule instances_untouched)
  show "mMaterialInstances (shutdown_own_state cfg s) = mMaterialInstances s"
    by (rule mMaterialInstances_shutdown_own_state)
  show "untouched FMaterialInstance s (shutdown_own_state cfg s)"
    unfolding shutdown_own_state_def Let_def
    by (intro untouched_destroy_material untouched_destroy untouched_destroyRenderPrimitive
              untouched_subsystem_terminate untouched_refl) simp_all
qed

lemma instances_shutdown_cleanup:
  assumes "distinct (map fst (mMaterialInstances s))"
  shows "all_instances (shutdown_cleanup cfg s) = []"
    and "instances_accounted s (shutdown_cleanup cfg s)"
proof -
  let ?e4 = "cleanupResourceList cfg (MemberList FSkybox)
               (cleanupResourceList cfg (MemberList FScene)
                 (cleanupResourceList cfg (MemberList FView)
                   (cleanupResourceList cfg (MemberList FRenderer) s)))"
  let ?e10 = "cleanupResourceList cfg (MemberList FMaterial)
                (cleanupResourceList cfg (MemberList FRenderTarget)
                  (cleanupResourceList cfg (MemberList FTexture)
                    (cleanupResourceList cfg (MemberList FVertexBuffer)
                      (cleanupResourceList cfg (MemberList FIndexBuffer)
                        (destroy_material cfg (mSkyboxMaterial ?e4) ?e4)))))"
  let ?e11 = "cleanup_instances cfg ?e10"
  have sc: "shutdown_cleanup cfg s = cleanupResourceList cfg (MemberList FFence) ?e11"
    by (simp add: shutdown_cleanup_def Let_def)
  have m10: "mMaterialInstances ?e10 = mMaterialInstances s"
    by (simp add: mMaterialInstances_cleanup_member mMaterialInstances_destroy_material)
  have "untouched FMaterialInstance s ?e10"
    by (intro untouched_cleanupResourceList untouched_destroy_material untouched_refl) simp_all
  with m10 have acc10: "instances_accounted s ?e10"
    by (rule instances_untouched)
  from assms m10 have d10: "distinct (map fst (mMaterialInstances ?e10))"
    by simp
  then have empty11: "all_instances ?e11 = []" and acc11: "instances_accounted ?e10 ?e11"
    by (rule instances_cleanup_instances)+
  have m12: "mMaterialInstances (shutdown_cleanup cfg s) = mMaterialInstances ?e11"
    unfolding sc by (rule mMaterialInstances_cleanup_member)
  have "untouched FMaterialInstance ?e11 (shutdown_cleanup cfg s)"
    unfolding sc by (intro untouched_cleanupResourceList untouched_refl) simp_all
  with m12 have acc12: "instances_accounted ?e11 (shutdown_cleanup cfg s)"
    by (rule instances_untouched)
  show "all_instances (shutdown_cleanup cfg s) = []"
    using empty11 m12 by (simp add: all_instances_def)
  show "instances_accounted s (shutdown_cleanup cfg s)"
    using acc10 acc11 acc12 instances_accounted_trans by blast
qed

lemma shutdown_sweeps_instances_once:
  assumes keys: "distinct (map fst (mMaterialInstances e))"
    and thread: "UTILS_HAS_THREADING cfg \<longrightarrow> \<not> driverThreadReturned e"
  shows "\<exists>e' evs. shutdown cfg e = Some e' \<and> events e' = events e @ evs \<and>
           all_instances e' = [] \<and>
           (\<forall>p. count_list (terminated FMaterialInstance evs) p = count_list (all_instances e) p) \<and>
           (\<forall>p. count_list (freed FMaterialInstance evs) p = count_list (all_instances e) p)"
proof -
  let ?e0 = "if NDEBUG cfg then e else log_event LogWatermark e"
  let ?e1 = "shutdown_own_state cfg ?e0"
  let ?E = "shutdown_cleanup cfg ?e1"
  have m0: "mMaterialInstances ?e0 = mMaterialInstances e"
    by (simp add: log_event_def)
  have acc0: "instances_accounted e ?e0"
    using m0 untouched_watermark by (rule instances_untouched)
  have acc1: "instances_accounted ?e0 ?e1"
    by (rule instances_shutdown_own_state)
  have "distinct (map fst (mMaterialInstances ?e1))"
    using keys m0 by (simp add: mMaterialInstances_shutdown_own_state)
  then have empty: "all_instances ?E = []" and acc2: "instances_accounted ?e1 ?E"
    by (rule instances_shutdown_cleanup)+
  have "instances_accounted e ?E"
    using acc0 acc1 acc2 instances_accounted_trans by blast
  with empty obtain pre where pre: "events ?E = events e @ pre"
    "\<forall>p. count_list (terminated FMaterialInstance pre) p = count_list (all_instances e) p"
    "\<forall>p. count_list (freed FMaterialInstance pre) p = count_list (all_instances e) p"
    by (auto simp: instances_accounted_def)
  obtain sweep where "cleanup_effect sweep e ?E"
    using cleans_before_exit by blast
  then have "driverThreadReturned ?E = driverThreadReturned e"
    by (simp add: cleanup_effect_def)
  with thread have "UTILS_HAS_THREADING cfg \<longrightarrow> \<not> driverThreadReturned ?E" by simp
  then obtain e' post where post: "shutdown_exit cfg ?E = Some e'" "events e' = events ?E @ post"
    "\<forall>T. terminated T post = [] \<and> freed T post = []"
    "mMaterialInstances e' = mMaterialInstances ?E"
    using shutdown_exit_adds_no_termination by blast
  have "shutdown cfg e = Some e'"
    using post(1) by (simp add: shutdown_def Let_def)
  moreover have "events e' = events e @ (pre @ post)"
    using pre(1) post(2) by simp
  moreover have "all_instances e' = []"
    using post(4) empty by (simp add: all_instances_def)
  moreover have "\<forall>p. count_list (terminated FMaterialInstance (pre @ post)) p =
      count_list (all_instances e) p"
    using pre(2) post(3) by simp
  moreover have "\<forall>p. count_list (freed FMaterialInstance (pre @ post)) p =
      count_list (all_instances e) p"
    using pre(3) post(3) by simp
  ultimately show ?thesis by blast
qed

subsection \<open>shutdown: the indirect lights\<close>

lemma mDefaultIbl_terminateAndDestroy:
  "mDefaultIbl (terminateAndDestroy cfg p (MemberList U) s) = mDefaultIbl s"
  by (simp add: terminateAndDestroy_def rl_remove_def heap_destroy_def item_terminate_def
                log_event_def record_command_def split: bool.splits)

lemma destroy_keeps_other:
  assumes "p \<noteq> q" "p \<in> set (resourceLists s T)"
  shows "\<exists>evs. events (destroy cfg T q s) = events s @ evs \<and>
           p \<in> set (resourceLists (destroy cfg T q s) T) \<and>
           Terminate T p \<notin> set evs \<and> HeapDestroy T p \<notin> set evs"
proof (cases "q \<noteq> nullptr \<and> q \<in> set (get_list (MemberList T) s)")
  case True
  then have "events (terminateAndDestroy cfg q (MemberList T) s) =
      events s @ [ListRemove T q, Terminate T q, HeapDestroy T q]"
    and "get_list (MemberList T) (terminateAndDestroy cfg q (MemberList T) s) =
      removeAll q (get_list (MemberList T) s)"
    using terminateAndDestroy_present [of q "MemberList T" s cfg] by simp_all
  with assms show ?thesis
    unfolding destroy_def by simp
next
  case False
  then have "destroy cfg T q s = s \<or> destroy cfg T q s = log_event (LogObjectDoesntExist T q) s"
    unfolding destroy_def by (auto simp: terminateAndDestroy_def rl_remove_def)
  then show ?thesis
  proof
    assume "destroy cfg T q s = s"
    with assms show ?thesis by simp
  next
    assume "destroy cfg T q s = log_event (LogObjectDoesntExist T q) s"
    with assms show ?thesis by (simp add: log_event_def)
  qed
qed

lemma shutdown_never_sweeps_indirect_lights:
  assumes other: "p \<noteq> mDefaultIbl e"
    and leaked: "p \<in> set (resourceLists e FIndirectLight)"
    and thread: "UTILS_HAS_THREADING cfg \<longrightarrow> \<not> driverThreadReturned e"
  shows "\<exists>e' evs. shutdown cfg e = Some e' \<and> events e' = events e @ evs \<and>
           p \<in> set (resourceLists e' FIndirectLight) \<and>
           Terminate FIndirectLight p \<notin> set evs \<and> HeapDestroy FIndirectLight p \<notin> set evs"
proof -
  let ?T = FIndirectLight
  define e0 where "e0 = (if NDEBUG cfg then e else log_event LogWatermark e)"
  define e6 where "e6 = subsystem_terminate CameraManager (subsystem_terminate LightManager
                   (subsystem_terminate RenderableManager (subsystem_terminate DFG
                     (subsystem_terminate ResourceAllocator
                       (subsystem_terminate PostProcessManager e0)))))"
  define e7 where "e7 = driverApi_destroyRenderPrimitive (mFullScreenTriangleRph e6) e6"
  define e8 where "e8 = destroy cfg FIndexBuffer (mFullScreenTriangleIb e7) e7"
  define e9 where "e9 = destroy cfg FVertexBuffer (mFullScreenTriangleVb e8) e8"
  define e10 where "e10 = destroy cfg FTexture (mDefaultIblTexture e9) e9"
  define e11 where "e11 = destroy cfg ?T (mDefaultIbl e10) e10"
  define e12 where "e12 = destroy_material cfg (mDefaultMaterial e11) e11"
  define E where "E = shutdown_cleanup cfg e12"
  have own: "shutdown_own_state cfg e0 = e12"
    by (simp add: shutdown_own_state_def Let_def e12_def e11_def e10_def e9_def e8_def e7_def
                  e6_def)
  have sd: "shutdown cfg e = shutdown_exit cfg E"
    by (simp add: shutdown_def Let_def own E_def flip: e0_def)
  have "untouched ?T e e0"
    unfolding e0_def by (rule untouched_watermark)
  then have "untouched ?T e e6"
    unfolding e6_def by (intro untouched_subsystem_terminate)
  then have "untouched ?T e e7"
    unfolding e7_def by (rule untouched_destroyRenderPrimitive)
  then have "untouched ?T e e8"
    unfolding e8_def by (rule untouched_destroy) simp
  then have "untouched ?T e e9"
    unfolding e9_def by (rule untouched_destroy) simp
  then have u10: "untouched ?T e e10"
    unfolding e10_def by (rule untouched_destroy) simp
  have "mDefaultIbl e0 = mDefaultIbl e"
    by (simp add: e0_def log_event_def)
  then have "mDefaultIbl e6 = mDefaultIbl e"
    by (simp add: e6_def subsystem_terminate_def record_command_def log_event_def)
  then have "mDefaultIbl e7 = mDefaultIbl e"
    by (simp add: e7_def driverApi_destroyRenderPrimitive_def record_command_def log_event_def)
  then have "mDefaultIbl e8 = mDefaultIbl e"
    by (simp add: e8_def destroy_def mDefaultIbl_terminateAndDestroy)
  then have "mDefaultIbl e9 = mDefaultIbl e"
    by (simp add: e9_def destroy_def mDefaultIbl_terminateAndDestroy)
  then have ibl: "mDefaultIbl e10 = mDefaultIbl e"
    by (simp add: e10_def destroy_def mDefaultIbl_terminateAndDestroy)
  from u10 obtain evs10 where l10: "resourceLists e10 ?T = resourceLists e ?T"
    and ev10: "events e10 = events e @ evs10"
    and n10: "Terminate ?T p \<notin> set evs10" "HeapDestroy ?T p \<notin> set evs10"
    by (auto simp: untouched_def)
  from other ibl have "p \<noteq> mDefaultIbl e10" by simp
  moreover from leaked l10 have "p \<in> set (resourceLists e10 ?T)" by simp
  ultimately obtain evs11 where ev11: "events e11 = events e10 @ evs11"
    and in11: "p \<in> set (resourceLists e11 ?T)"
    and n11: "Terminate ?T p \<notin> set evs11" "HeapDestroy ?T p \<notin> set evs11"
    unfolding e11_def using destroy_keeps_other by blast
  have "untouched ?T e11 e12"
    unfolding e12_def by (intro untouched_destroy_material untouched_refl) simp
  then have uE: "untouched ?T e11 E"
    unfolding E_def by (rule untouched_shutdown_cleanup) simp
  obtain sweep where "cleanup_effect sweep e E"
    using cleans_before_exit [of e cfg] unfolding E_def own [symmetric] e0_def by blast
  then have "driverThreadReturned E = driverThreadReturned e"
    by (simp add: cleanup_effect_def)
  with thread have "UTILS_HAS_THREADING cfg \<longrightarrow> \<not> driverThreadReturned E" by simp
  then obtain e' where ex: "shutdown_exit cfg E = Some e'" and ux: "untouched ?T E e'"
    using untouched_shutdown_exit by blast
  from uE ux have "untouched ?T e11 e'" by (rule untouched_trans)
  then obtain rest where lE: "resourceLists e' ?T = resourceLists e11 ?T"
    and evE: "events e' = events e11 @ rest"
    and nE: "Terminate ?T p \<notin> set rest" "HeapDestroy ?T p \<notin> set rest"
    by (auto simp: untouched_def)
  have "shutdown cfg e = Some e'"
    using ex by (simp add: sd)
  moreover have "events e' = events e @ (evs10 @ evs11 @ rest)"
    using ev10 ev11 evE by simp
  moreover have "p \<in> set (resourceLists e' ?T)"
    using in11 lE by simp
  moreover have "Terminate ?T p \<notin> set (evs10 @ evs11 @ rest)"
    "HeapDestroy ?T p \<notin> set (evs10 @ evs11 @ rest)"
    using n10 n11 nE by simp_all
  ultimately show ?thesis by blast
qed

subsection \<open>loop\<close>

lemma loop_without_driver:
  assumes "createDriver env (if mPlatform e = nullptr then defaultPlatform env else mPlatform e) = nullptr"
  shows "\<exists>e'. loop cfg env e = Some e' \<and> driverThreadReturned e' \<and> mDriver e' = nullptr \<and>
           events e' = events e @ [BarrierLatch]"
  using assms by (auto simp: loop_def loop_startup_def Let_def log_event_def)

lemma loop_with_driver:
  assumes "createDriver env (if mPlatform e = nullptr then defaultPlatform env else mPlatform e) \<noteq> nullptr"
  shows "loop cfg env e = loop_run cfg (loop_startup env e)"
  using assms by (auto simp: loop_def loop_startup_def Let_def log_event_def)

end
